theory Spec2Isabelle
  imports Main "HOL-Library.Sublist" "HOL-Library.AList"
begin

section \<open>JavaScript values\<close>

text \<open>
  The program is JavaScript: its data are dynamically typed values. The program computes
  with no number: coordinates, altitudes, timestamps and levels are handed from one library
  call to the next unchanged, printed, tested for truth and compared with \<open>===\<close>. So a
  number is carried as the text JavaScript prints for it (\<open>12\<close>, \<open>-3\<close>, \<open>0.5\<close>,
  \<open>1e+21\<close>, \<open>NaN\<close>, \<open>Infinity\<close>; both zeros print \<open>0\<close>): two numbers are
  \<open>===\<close> exactly when they print alike and are not \<open>NaN\<close>. An object is the list
  of its own properties in enumeration order.
\<close>

type_synonym number = string

datatype jsval =
    JUndefined
  | JNull
  | JBool bool
  | JNum number
  | JStr string
  | JArr "jsval list"
  | JObj "(string \<times> jsval) list"

text \<open>
  A thrown value: \<open>Error m\<close> is an error object (an \<open>Error\<close>, a \<open>TypeError\<close>, an error
  of a library) whose \<open>message\<close> is the string \<open>m\<close>; \<open>Thrown v\<close> is any other value
  thrown, or a promise's rejection with any other value: JavaScript lets every value be thrown.
\<close>

datatype error = Error string | Thrown jsval

definition LF :: char where
  "LF = CHR 0x0A"

definition CR :: char where
  "CR = CHR 0x0D"

text \<open>Truthiness, as \<open>||\<close>, \<open>!\<close>, \<open>?:\<close> and the predicates of lodash test it.\<close>

fun truthy :: "jsval \<Rightarrow> bool" where
  "truthy JUndefined = False"
| "truthy JNull = False"
| "truthy (JBool b) = b"
| "truthy (JNum t) = (t \<noteq> ''0'' \<and> t \<noteq> ''NaN'')"
| "truthy (JStr s) = (s \<noteq> [])"
| "truthy (JArr xs) = True"
| "truthy (JObj kvs) = True"

text \<open>Decimal digits of a natural number, most significant first.\<close>

fun digits :: "nat \<Rightarrow> string" where
  "digits n = (if n < 10 then [''0123456789'' ! n] else digits (n div 10) @ [''0123456789'' ! (n mod 10)])"

declare digits.simps [simp del]

text \<open>
  The array length a number is, if it is one (\<open>isLength\<close> of lodash): an integer from
  \<open>0\<close> to \<open>2\<^sup>5\<^sup>3 - 1\<close>. Such a number prints as its decimal digits.
\<close>

definition length_of :: "number \<Rightarrow> nat option" where
  "length_of t =
     (let n = foldl (\<lambda>a c. 10 * a + (of_char c - 48)) (0 :: nat) t
      in if t = digits n \<and> n \<le> 9007199254740991 then Some n else None)"

fun join :: "string \<Rightarrow> string list \<Rightarrow> string" where
  "join sep [] = []"
| "join sep [x] = x"
| "join sep (x # y # ys) = x @ sep @ join sep (y # ys)"

text \<open>
  \<open>String(v)\<close>, the conversion a template literal and \<open>+\<close> on a string apply:
  a string is itself, a number its printed text, an array joins its elements with a comma,
  \<open>null\<close> and \<open>undefined\<close> elements giving the empty string; a plain object gives
  \<open>[object Object]\<close>.
\<close>

fun to_string :: "jsval \<Rightarrow> string" where
  "to_string JUndefined = ''undefined''"
| "to_string JNull = ''null''"
| "to_string (JBool b) = (if b then ''true'' else ''false'')"
| "to_string (JNum t) = t"
| "to_string (JStr s) = s"
| "to_string (JArr xs) =
     join '','' (map (\<lambda>x. if x = JUndefined \<or> x = JNull then [] else to_string x) xs)"
| "to_string (JObj kvs) = ''[object Object]''"

text \<open>\<open>xs.join(sep)\<close> on an array.\<close>

definition array_join :: "string \<Rightarrow> jsval list \<Rightarrow> string" where
  "array_join sep xs =
     join sep (map (\<lambda>x. if x = JUndefined \<or> x = JNull then [] else to_string x) xs)"

text \<open>
  Reading a property: \<open>v.p\<close> throws a TypeError on \<open>undefined\<close> and \<open>null\<close>, gives
  the property of an object, and \<open>undefined\<close> where there is none (none of the names the
  program reads is a built-in property of a string, a number, a boolean or an array).
\<close>

definition type_error :: "string \<Rightarrow> jsval \<Rightarrow> error" where
  "type_error p v = Error (''Cannot read property '' @ [CHR 0x27] @ p @ [CHR 0x27] @ '' of '' @ to_string v)"

fun get_prop :: "jsval \<Rightarrow> string \<Rightarrow> error + jsval" where
  "get_prop JUndefined p = Inl (type_error p JUndefined)"
| "get_prop JNull p = Inl (type_error p JNull)"
| "get_prop (JObj kvs) p = Inr (case map_of kvs p of None \<Rightarrow> JUndefined | Some v \<Rightarrow> v)"
| "get_prop v p = Inr JUndefined"

text \<open>\<open>v.p1.p2...\<close>, left to right.\<close>

fun get_path :: "jsval \<Rightarrow> string list \<Rightarrow> error + jsval" where
  "get_path v [] = Inr v"
| "get_path v (p # ps) = (case get_prop v p of Inl e \<Rightarrow> Inl e | Inr w \<Rightarrow> get_path w ps)"

text \<open>
  The elements lodash iterates over in \<open>_.find\<close> and \<open>_.some\<close>: those of an array,
  the characters of a string, the indexed properties of an array-like object, the property
  values of any other object, and nothing for every other value.
\<close>

definition elements_of :: "jsval \<Rightarrow> jsval list" where
  "elements_of v =
     (case v of
        JArr xs \<Rightarrow> xs
      | JStr s \<Rightarrow> map (\<lambda>c. JStr [c]) s
      | JObj kvs \<Rightarrow>
          (case map_of kvs ''length'' of
             Some (JNum t) \<Rightarrow>
               (case length_of t of
                  Some n \<Rightarrow>
                    map (\<lambda>i. case map_of kvs (digits i) of None \<Rightarrow> JUndefined | Some x \<Rightarrow> x) [0..<n]
                | None \<Rightarrow> map snd kvs)
           | _ \<Rightarrow> map snd kvs)
      | _ \<Rightarrow> [])"

text \<open>\<open>_.find(collection, predicate)\<close>: the first element the predicate accepts, else \<open>undefined\<close>.\<close>

fun find_js :: "(jsval \<Rightarrow> error + bool) \<Rightarrow> jsval list \<Rightarrow> error + jsval" where
  "find_js p [] = Inr JUndefined"
| "find_js p (x # xs) =
     (case p x of Inl e \<Rightarrow> Inl e | Inr b \<Rightarrow> if b then Inr x else find_js p xs)"

text \<open>\<open>_.some(collection, predicate)\<close>: whether the predicate accepts some element.\<close>

fun some_js :: "(jsval \<Rightarrow> error + bool) \<Rightarrow> jsval list \<Rightarrow> error + bool" where
  "some_js p [] = Inr False"
| "some_js p (x # xs) =
     (case p x of Inl e \<Rightarrow> Inl e | Inr b \<Rightarrow> if b then Inr True else some_js p xs)"

text \<open>\<open>s.indexOf(pat)\<close> on a string: the first position of \<open>pat\<close> in \<open>s\<close>, or \<open>-1\<close>.\<close>

fun indexOf_from :: "nat \<Rightarrow> string \<Rightarrow> string \<Rightarrow> int" where
  "indexOf_from i [] pat = (if pat = [] then int i else - 1)"
| "indexOf_from i (c # cs) pat =
     (if prefix pat (c # cs) then int i else indexOf_from (Suc i) cs pat)"

definition indexOf :: "string \<Rightarrow> string \<Rightarrow> int" where
  "indexOf s pat = indexOf_from 0 s pat"

text \<open>\<open>xs.indexOf(x)\<close> on an array: the first position of an element \<open>===\<close> to the string \<open>x\<close>, or \<open>-1\<close>.\<close>

fun position_from :: "nat \<Rightarrow> jsval list \<Rightarrow> string \<Rightarrow> int" where
  "position_from i [] x = - 1"
| "position_from i (y # ys) x = (if y = JStr x then int i else position_from (Suc i) ys x)"

text \<open>
  \<open>e.message\<close> for a caught \<open>e\<close>: the message of an error object, and the property of
  any other value, which \<open>undefined\<close> and \<open>null\<close> do not have.
\<close>

fun message :: "error \<Rightarrow> error + jsval" where
  "message (Error m) = Inr (JStr m)"
| "message (Thrown v) = get_prop v ''message''"

text \<open>
  \<open>v.indexOf(pat)\<close> for a string \<open>pat\<close>, \<open>expr\<close> being the text of the expression \<open>v\<close>.
  Strings and arrays have the method; on \<open>undefined\<close> and \<open>null\<close> reading it throws a
  TypeError, and so does calling it on every other value, none of which has a function there.
\<close>

fun indexOf_js :: "string \<Rightarrow> jsval \<Rightarrow> string \<Rightarrow> error + int" where
  "indexOf_js expr (JStr s) pat = Inr (indexOf s pat)"
| "indexOf_js expr (JArr xs) pat = Inr (position_from 0 xs pat)"
| "indexOf_js expr JUndefined pat = Inl (type_error ''indexOf'' JUndefined)"
| "indexOf_js expr JNull pat = Inl (type_error ''indexOf'' JNull)"
| "indexOf_js expr v pat = Inl (Error (expr @ ''.indexOf is not a function''))"

section \<open>The environment: libraries, file system, randomness\<close>

text \<open>
  Everything outside the two source files (the client library, lodash's random draws,
  winston, \<open>fs\<close>, \<open>JSON\<close>) is an opaque collaborator. A call to it is recorded by name
  and arguments; an argument is a value of the program, the number a unary \<open>+\<close> makes of
  one, a value the libraries export (named by its path), or an object literal of such.
  In a name, \<open>client.m\<close> and \<open>batch.m\<close> are calls on the variables \<open>client\<close> and
  \<open>batch\<close>, and \<open>.m\<close> is a chained call on what the previous call returned.
\<close>

datatype arg =
    Val jsval
  | ToNumber jsval
  | Lib string
  | Obj "(string \<times> arg) list"

type_synonym libcall = "string \<times> arg list"

type_synonym event = "libcall \<times> (error + jsval)"

type_synonym account = "(string \<times> jsval) list"

text \<open>
  The environment answers a call with a value or throws, and moves to a new state of the
  world \<open>'w\<close>. The CSV parser of \<open>neat-csv\<close> is a function of the text and the
  options that gives the rows as objects; the two request type enumerators of
  \<open>node-pogo-protos\<close> the program compares with are numbers.
\<close>

record 'w externals =
  lib :: "'w \<Rightarrow> libcall \<Rightarrow> (error + jsval) \<times> 'w"
  csvImport :: "jsval \<Rightarrow> jsval \<Rightarrow> error + account list"
  GET_INVENTORY :: number
  DOWNLOAD_SETTINGS :: number

text \<open>
  The state of a run: the world, the calls made so far, each with the answer it got, the
  module variable \<open>config\<close>, and \<open>acct\<close>, the account object the parameter \<open>account\<close> refers to (it is mutated in
  place, so what was written before a throw stays written).
\<close>

record 'w state =
  world :: 'w
  calls :: "event list"
  config :: jsval
  acct :: account

type_synonym ('w, 'a) prog = "'w state \<Rightarrow> (error + 'a) \<times> 'w state"

definition ret :: "'a \<Rightarrow> ('w, 'a) prog" where
  "ret x = (\<lambda>s. (Inr x, s))"

definition throw :: "error \<Rightarrow> ('w, 'a) prog" where
  "throw e = (\<lambda>s. (Inl e, s))"

definition lift :: "error + 'a \<Rightarrow> ('w, 'a) prog" where
  "lift r = (\<lambda>s. (r, s))"

text \<open>Sequencing (\<open>await\<close>, \<open>;\<close>): a throw skips what follows.\<close>

definition then_do :: "('w, 'a) prog \<Rightarrow> ('a \<Rightarrow> ('w, 'b) prog) \<Rightarrow> ('w, 'b) prog" where
  "then_do m f = (\<lambda>s. case m s of (Inl e, s') \<Rightarrow> (Inl e, s') | (Inr x, s') \<Rightarrow> f x s')"

text \<open>\<open>try { m } catch (e) { h e }\<close>.\<close>

definition try_catch :: "('w, 'a) prog \<Rightarrow> (error \<Rightarrow> ('w, 'a) prog) \<Rightarrow> ('w, 'a) prog" where
  "try_catch m h = (\<lambda>s. case m s of (Inl e, s') \<Rightarrow> h e s' | (Inr x, s') \<Rightarrow> (Inr x, s'))"

definition perform :: "'w externals \<Rightarrow> libcall \<Rightarrow> ('w, jsval) prog" where
  "perform ext c =
     (\<lambda>s. case lib ext (world s) c of (r, w) \<Rightarrow> (r, s\<lparr>world := w, calls := calls s @ [(c, r)]\<rparr>))"

text \<open>A chain of calls, each made once the one before has returned; the value is the last one's.\<close>

fun perform_all :: "'w externals \<Rightarrow> libcall list \<Rightarrow> ('w, jsval) prog" where
  "perform_all ext [] = ret JUndefined"
| "perform_all ext [c] = perform ext c"
| "perform_all ext (c # d # cs) = then_do (perform ext c) (\<lambda>_. perform_all ext (d # cs))"

definition field :: "account \<Rightarrow> string \<Rightarrow> jsval" where
  "field a k = (case map_of a k of None \<Rightarrow> JUndefined | Some v \<Rightarrow> v)"

definition get_field :: "string \<Rightarrow> ('w, jsval) prog" where
  "get_field k = (\<lambda>s. (Inr (field (acct s) k), s))"

definition set_field :: "string \<Rightarrow> jsval \<Rightarrow> ('w, unit) prog" where
  "set_field k v = (\<lambda>s. (Inr (), s\<lparr>acct := AList.update k v (acct s)\<rparr>))"

definition config_path :: "string list \<Rightarrow> ('w, jsval) prog" where
  "config_path ps = (\<lambda>s. (get_path (config s) ps, s))"

definition set_config :: "jsval \<Rightarrow> ('w, unit) prog" where
  "set_config v = (\<lambda>s. (Inr (), s\<lparr>config := v\<rparr>))"

text \<open>\<open>resp => resp._requestType === t\<close>, for a number \<open>t\<close>.\<close>

definition request_type_is :: "number \<Rightarrow> jsval \<Rightarrow> error + bool" where
  "request_type_is t resp =
     (case get_prop resp ''_requestType'' of
        Inl e \<Rightarrow> Inl e
      | Inr v \<Rightarrow> Inr (v = JNum t \<and> t \<noteq> ''NaN''))"

text \<open>\<open>item => item.is_iap\<close>, as \<open>_.some\<close> tests its result.\<close>

definition is_iap :: "jsval \<Rightarrow> error + bool" where
  "is_iap item = (case get_prop item ''is_iap'' of Inl e \<Rightarrow> Inl e | Inr v \<Rightarrow> Inr (truthy v))"

section \<open>src/index.js\<close>

text \<open>The module variable \<open>config\<close> as the file initialises it.\<close>

definition default_config :: jsval where
  "default_config =
     JObj [(''api'', JObj [(''version'', JNum ''6304''), (''country'', JStr ''FR''),
                           (''language'', JStr ''fr''), (''timezone'', JStr ''Europe/Paris'')]),
           (''delimiter'', JStr '',''),
           (''loglevel'', JStr ''debug'')]"

definition logger_info :: "'w externals \<Rightarrow> string \<Rightarrow> ('w, jsval) prog" where
  "logger_info ext msg = perform ext (''logger.info'', [Val (JStr msg)])"



definition loginFlow :: "'w externals \<Rightarrow> ('w, jsval) prog" where
  "loginFlow ext =
     then_do (get_field ''latitude'') (\<lambda>account_latitude.
     then_do (if truthy account_latitude then ret account_latitude
              else config_path [''position'', ''latitude'']) (\<lambda>latitude.
     then_do (get_field ''longitude'') (\<lambda>account_longitude.
     then_do (if truthy account_longitude then ret account_longitude
              else config_path [''position'', ''longitude'']) (\<lambda>longitude.
     then_do (perform ext (''_.random'', [Val (JNum ''0''), Val (JNum ''100''), Val (JBool True)])) (\<lambda>altitude.
     then_do (perform ext (''client.setPosition'',
          [Val (JObj [(''latitude'', latitude), (''longitude'', longitude), (''altitude'', altitude)])])) (\<lambda>_.
     then_do (perform ext (''client.init'', [Val (JBool False)])) (\<lambda>_.
     then_do (perform_all ext [(''client.batchStart'', []), (''.batchCall'', [])]) (\<lambda>_.
     then_do (perform ext (''client.batchStart'', [])) (\<lambda>_.
     then_do (config_path [''api'', ''country'']) (\<lambda>country.
     then_do (config_path [''api'', ''language'']) (\<lambda>language.
     then_do (config_path [''api'', ''timezone'']) (\<lambda>timezone.
     then_do (perform_all ext
          [(''batch.getPlayer'', [Val country, Val language, Val timezone]),
           (''client.batchCall'', [])]) (\<lambda>response.
     then_do (lift (get_prop response ''warn'')) (\<lambda>warn.
     then_do (set_field ''warn'' warn) (\<lambda>_.
     then_do (lift (get_prop response ''banned'')) (\<lambda>banned.
     then_do (set_field ''banned'' banned) (\<lambda>_.
     then_do (perform ext (''client.batchStart'', [])) (\<lambda>_.
     then_do (config_path [''api'', ''version'']) (\<lambda>version.
     then_do (perform_all ext
          [(''batch.downloadRemoteConfigVersion'',
              [Lib ''POGOProtos.Enums.Platform.IOS'', Val (JStr []), Val (JStr []), Val (JStr []),
               ToNumber version]),
           (''.checkChallenge'', []),
           (''.getHatchedEggs'', []),
           (''.getInventory'', [Val (JNum ''0'')]),
           (''.checkAwardedBadges'', []),
           (''.downloadSettings'', [Val (JStr [])]),
           (''batch.batchCall'', [])]) (\<lambda>response.
     then_do (lift (find_js (request_type_is (GET_INVENTORY ext)) (elements_of response))) (\<lambda>inventoryResponse.
     then_do (perform ext (''pogobuf.Utils.splitInventory'', [Val inventoryResponse])) (\<lambda>split.
     then_do (lift (get_path split [''player'', ''level''])) (\<lambda>level.
     then_do (lift (get_path inventoryResponse [''inventory_delta'', ''new_timestamp_ms''])) (\<lambda>inventory.
     then_do (lift (find_js (request_type_is (DOWNLOAD_SETTINGS ext)) (elements_of response))) (\<lambda>settingsResponse.
     then_do (lift (get_prop settingsResponse ''hash'')) (\<lambda>settings.
     then_do (perform_all ext
          [(''client.batchStart'', []),
           (''batch.getPlayerProfile'', [Val (JStr [])]),
           (''.checkChallenge'', []),
           (''.getHatchedEggs'', []),
           (''.getInventory'', [Val inventory]),
           (''.checkAwardedBadges'', []),
           (''.downloadSettings'', [Val settings]),
           (''.getBuddyWalked'', []),
           (''batch.batchCall'', [])]) (\<lambda>_.
     then_do (perform_all ext
          [(''client.batchStart'', []),
           (''batch.levelUpRewards'', [Val level]),
           (''.checkChallenge'', []),
           (''.getHatchedEggs'', []),
           (''.getInventory'', [Val inventory]),
           (''.checkAwardedBadges'', []),
           (''.downloadSettings'', [Val settings]),
           (''.getBuddyWalked'', []),
           (''batch.batchCall'', [])]) (\<lambda>_.
     ret (JObj [(''inventory'', inventory), (''settings'', settings)])))))))))))))))))))))))))))))"

text \<open>
  \<open>checkAccount\<close>, in four parts: the client's construction, the two \<open>try\<close>
  statements, and the four closing log lines. \<open>_.times\<close> returns the array of the
  thirty-two characters its callback drew with \<open>Math.random\<close>; \<open>join\<close> is called on it.
\<close>

definition new_client :: "'w externals \<Rightarrow> ('w, jsval) prog" where
  "new_client ext =
     then_do (get_field ''username'') (\<lambda>username.
     then_do (logger_info ext (''Checking account '' @ to_string username)) (\<lambda>_.
     then_do (perform ext (''_.times'', [Val (JNum ''32''), Lib ''Math.random''])) (\<lambda>drawn.
     then_do (case drawn of
                JArr xs \<Rightarrow> ret (JStr (array_join [] xs))
              | JUndefined \<Rightarrow> throw (type_error ''join'' JUndefined)
              | JNull \<Rightarrow> throw (type_error ''join'' JNull)
              | _ \<Rightarrow> throw (Error ''_.times(...).join is not a function'')) (\<lambda>deviceId.
     then_do (get_field ''deviceId'') (\<lambda>account_deviceId.
     then_do (get_field ''type'') (\<lambda>type.
     then_do (get_field ''username'') (\<lambda>username.
     then_do (get_field ''password'') (\<lambda>password.
     then_do (config_path [''api'', ''version'']) (\<lambda>version.
     then_do (config_path [''hashkey'']) (\<lambda>hashkey.
     then_do (config_path [''proxy'']) (\<lambda>proxy.
     perform ext (''new pogobuf.Client'',
       [Val (JObj [(''deviceId'', if truthy account_deviceId then account_deviceId else deviceId),
                   (''authType'', type),
                   (''username'', username),
                   (''password'', password),
                   (''version'', version),
                   (''useHashingServer'', JBool True),
                   (''hashingKey'', hashkey),
                   (''includeRequestTypeInResponse'', JBool True),
                   (''proxy'', proxy),
                   (''maxTries'', JNum ''1'')])]))))))))))))"

definition login_phase :: "'w externals \<Rightarrow> ('w, unit) prog" where
  "login_phase ext =
     try_catch
       (then_do (loginFlow ext) (\<lambda>_. ret ()))
       (\<lambda>e. then_do (lift (message e)) (\<lambda>e_message.
            then_do (lift (indexOf_js ''e.message'' e_message ''Status code 3'')) (\<lambda>i.
            if 0 \<le> i then set_field ''banned'' (JBool True) else ret ())))"

text \<open>The store request, the same in both files: one batch with one platform request.\<close>

definition store_request :: "libcall list" where
  "store_request =
     [(''client.batchStart'', []),
      (''batch.batchAddPlatformRequest'',
         [Lib ''PlatformRequestType.GET_STORE_ITEMS'', Lib ''new GetStoreItemsRequest({})'']),
      (''batch.batchCall'', [])]"

text \<open>The second \<open>try\<close> statement: its block, and the statement with its handler.\<close>

definition store_try :: "'w externals \<Rightarrow> ('w, unit) prog" where
  "store_try ext =
     then_do (perform_all ext store_request) (\<lambda>response.
     then_do (set_field ''store'' (JBool True)) (\<lambda>_.
     then_do (lift (get_prop response ''items'')) (\<lambda>items.
     then_do (lift (some_js is_iap (elements_of items))) (\<lambda>some.
     set_field ''iap'' (JBool some)))))"

definition store_phase :: "'w externals \<Rightarrow> ('w, unit) prog" where
  "store_phase ext =
     try_catch (store_try ext)
       (\<lambda>e. then_do (set_field ''store'' (JBool False)) (\<lambda>_.
            set_field ''iap'' (JBool False)))"

definition report_log :: "'w externals \<Rightarrow> ('w, unit) prog" where
  "report_log ext =
     then_do (get_field ''warn'') (\<lambda>warn.
     then_do (logger_info ext (''  acount is '' @ (if truthy warn then [] else ''not '') @ ''warn'')) (\<lambda>_.
     then_do (get_field ''banned'') (\<lambda>banned.
     then_do (logger_info ext (''  acount is '' @ (if truthy banned then [] else ''not '') @ ''banned'')) (\<lambda>_.
     then_do (get_field ''store'') (\<lambda>store.
     then_do (logger_info ext (''  acount has '' @ (if truthy store then [] else ''not '') @ ''access to the store.'')) (\<lambda>_.
     then_do (get_field ''iap'') (\<lambda>iap.
     then_do (logger_info ext (''  acount has '' @ (if truthy iap then [] else ''not '') @ ''access to in app purchases.'')) (\<lambda>_.
     ret ()))))))))"

definition checkAccount :: "'w externals \<Rightarrow> ('w, unit) prog" where
  "checkAccount ext =
     then_do (new_client ext) (\<lambda>client.
     then_do (login_phase ext) (\<lambda>_.
     then_do (store_phase ext) (\<lambda>_.
     report_log ext)))"

definition saveToFile :: "'w externals \<Rightarrow> account list \<Rightarrow> string \<Rightarrow> ('w, unit) prog" where
  "saveToFile ext accounts filename =
     then_do (perform ext (''fs.writeFile'',
        [Val (JStr filename),
         Val (JStr (foldl (\<lambda>content account.
                content @ to_string (field account ''username'') @ '','' @
                to_string (field account ''banned'') @ '','' @
                to_string (field account ''warn'') @ '','' @
                to_string (field account ''store'') @ '','' @
                to_string (field account ''iap'') @ [LF])
              (''username,banned,warn,store,iap'' @ [LF]) accounts)),
         Val (JStr ''utf8'')])) (\<lambda>_.
     ret ())"

text \<open>
  \<open>for (const account of accounts) await body(account)\<close>: the objects of the array, one
  after the other, each as \<open>acct\<close> while the body runs; the value is the array after.
\<close>

fun for_each :: "('w, unit) prog \<Rightarrow> account list \<Rightarrow> ('w, account list) prog" where
  "for_each body [] = ret []"
| "for_each body (a # as) =
     then_do (\<lambda>s. body (s\<lparr>acct := a\<rparr>)) (\<lambda>_.
     then_do (\<lambda>s. (Inr (acct s), s)) (\<lambda>a'.
     then_do (for_each body as) (\<lambda>as'.
     ret (a' # as'))))"


section \<open>src/unnamed/part\_000\<close>

text \<open>The second source file is a variant of the first; its functions carry the suffix \<open>_part0\<close>.\<close>

definition default_config_part0 :: jsval where
  "default_config_part0 =
     JObj [(''api'', JObj [(''version'', JNum ''6301''), (''country'', JStr ''FR''),
                           (''language'', JStr ''fr''), (''timezone'', JStr ''Europe/Paris'')]),
           (''loglevel'', JStr ''debug'')]"


text \<open>
  \<open>content.split(/\r?\n/)\<close>: the segments between line breaks, a line break being a line
  feed or a carriage return followed by one. \<open>cur\<close> is the segment being read, reversed.
\<close>

fun lines_from :: "string \<Rightarrow> string \<Rightarrow> string list" where
  "lines_from cur [] = [rev cur]"
| "lines_from cur [c] = (if c = LF then [rev cur, []] else [rev (c # cur)])"
| "lines_from cur (c # d # cs) =
     (if c = CR \<and> d = LF then rev cur # lines_from [] cs
      else if c = LF then rev cur # lines_from [] (d # cs)
      else lines_from (c # cur) (d # cs))"

text \<open>
  \<open>line.split(delimiter)\<close> for a string delimiter: the pieces between its occurrences,
  found left to right; the empty delimiter gives the characters.
\<close>

function split_from :: "string \<Rightarrow> string \<Rightarrow> string \<Rightarrow> string list" where
  "split_from sep cur [] = [rev cur]"
| "split_from sep cur (c # cs) =
     (if sep \<noteq> [] \<and> prefix sep (c # cs)
      then rev cur # split_from sep [] (drop (length sep) (c # cs))
      else split_from sep (c # cur) cs)"
  by pat_completeness auto
termination
  by (relation "measure (\<lambda>(sep, cur, s). length s)") auto

definition split_js :: "string \<Rightarrow> string \<Rightarrow> string list" where
  "split_js s sep = (if sep = [] then map (\<lambda>c. [c]) s else split_from sep [] s)"

text \<open>\<open>xs[i]\<close> on an array of strings: \<open>undefined\<close> past the end.\<close>

definition nth_js :: "string list \<Rightarrow> nat \<Rightarrow> jsval" where
  "nth_js xs i = (if i < length xs then JStr (xs ! i) else JUndefined)"

text \<open>\<open>loadAccount(filename, delimiter = ',')\<close>; the file's only caller passes no delimiter.\<close>

definition loadAccount_part0 :: "'w externals \<Rightarrow> string \<Rightarrow> string \<Rightarrow> ('w, account list) prog" where
  "loadAccount_part0 ext filename delimiter =
     then_do (perform ext (''fs.existsSync'', [Val (JStr filename)])) (\<lambda>exists.
     if \<not> truthy exists then throw (Error ''accounts.csv does not exist.'') else
     then_do (perform ext (''fs.readFile'', [Val (JStr filename), Val (JStr ''utf8'')])) (\<lambda>content.
     then_do (case content of
                JStr text \<Rightarrow> ret (lines_from [] text)
              | JUndefined \<Rightarrow> throw (type_error ''split'' JUndefined)
              | JNull \<Rightarrow> throw (type_error ''split'' JNull)
              | _ \<Rightarrow> throw (Error ''content.split is not a function'')) (\<lambda>lines.
     ret (map (\<lambda>line.
            [(''type'', nth_js (split_js line delimiter) 0),
             (''username'', nth_js (split_js line delimiter) 1),
             (''password'', nth_js (split_js line delimiter) 2)]) lines))))"

definition loginFlow_part0 :: "'w externals \<Rightarrow> ('w, jsval) prog" where
  "loginFlow_part0 ext =
     then_do (config_path [''position'', ''latitude'']) (\<lambda>latitude.
     then_do (config_path [''position'', ''longitude'']) (\<lambda>longitude.
     then_do (perform ext (''_.random'', [Val (JNum ''-10''), Val (JNum ''20''), Val (JBool True)])) (\<lambda>altitude.
     then_do (perform ext (''client.setPosition'',
          [Val (JObj [(''latitude'', latitude), (''longitude'', longitude), (''altitude'', altitude)])])) (\<lambda>_.
     then_do (perform ext (''client.init'', [Val (JBool False)])) (\<lambda>_.
     then_do (perform_all ext [(''client.batchStart'', []), (''.batchCall'', [])]) (\<lambda>_.
     then_do (perform ext (''client.batchStart'', [])) (\<lambda>_.
     then_do (config_path [''api'', ''country'']) (\<lambda>country.
     then_do (config_path [''api'', ''language'']) (\<lambda>language.
     then_do (config_path [''api'', ''timezone'']) (\<lambda>timezone.
     then_do (perform_all ext
          [(''batch.getPlayer'', [Val country, Val language, Val timezone]),
           (''client.batchCall'', [])]) (\<lambda>response.
     then_do (lift (get_prop response ''warn'')) (\<lambda>warn.
     then_do (set_field ''warn'' warn) (\<lambda>_.
     then_do (lift (get_prop response ''banned'')) (\<lambda>banned.
     then_do (set_field ''banned'' banned) (\<lambda>_.
     then_do (get_field ''warn'') (\<lambda>warn.
     then_do (logger_info ext (''  acount is '' @ (if truthy warn then [] else ''not '') @ ''warn'')) (\<lambda>_.
     then_do (get_field ''banned'') (\<lambda>banned.
     then_do (logger_info ext (''  acount is '' @ (if truthy banned then [] else ''not '') @ ''banned'')) (\<lambda>_.
     then_do (perform ext (''client.batchStart'', [])) (\<lambda>_.
     then_do (config_path [''api'', ''version'']) (\<lambda>version.
     then_do (perform_all ext
          [(''batch.downloadRemoteConfigVersion'',
              [Lib ''POGOProtos.Enums.Platform.IOS'', Val (JStr []), Val (JStr []), Val (JStr []),
               ToNumber version]),
           (''.checkChallenge'', []),
           (''.getHatchedEggs'', []),
           (''.getInventory'', [Val (JNum ''0'')]),
           (''.checkAwardedBadges'', []),
           (''.downloadSettings'', [Val (JStr [])]),
           (''batch.batchCall'', [])]) (\<lambda>response.
     then_do (lift (find_js (request_type_is (GET_INVENTORY ext)) (elements_of response))) (\<lambda>inventoryResponse.
     then_do (perform ext (''pogobuf.Utils.splitInventory'', [Val inventoryResponse])) (\<lambda>split.
     then_do (lift (get_path split [''player'', ''level''])) (\<lambda>level.
     then_do (lift (get_path inventoryResponse [''inventory_delta'', ''new_timestamp_ms''])) (\<lambda>inventory.
     then_do (lift (find_js (request_type_is (DOWNLOAD_SETTINGS ext)) (elements_of response))) (\<lambda>settingsResponse.
     then_do (lift (get_prop settingsResponse ''hash'')) (\<lambda>settings.
     then_do (perform_all ext
          [(''client.batchStart'', []),
           (''batch.getPlayerProfile'', [Val (JStr [])]),
           (''.checkChallenge'', []),
           (''.getHatchedEggs'', []),
           (''.getInventory'', [Val inventory]),
           (''.checkAwardedBadges'', []),
           (''.downloadSettings'', [Val settings]),
           (''.getBuddyWalked'', []),
           (''batch.batchCall'', [])]) (\<lambda>_.
     then_do (perform_all ext
          [(''client.batchStart'', []),
           (''batch.levelUpRewards'', [Val level]),
           (''.checkChallenge'', []),
           (''.getHatchedEggs'', []),
           (''.getInventory'', [Val inventory]),
           (''.checkAwardedBadges'', []),
           (''.downloadSettings'', [Val settings]),
           (''.getBuddyWalked'', []),
           (''batch.batchCall'', [])]) (\<lambda>_.
     ret (JObj [(''inventory'', inventory), (''settings'', settings)])))))))))))))))))))))))))))))))"

definition new_client_part0 :: "'w externals \<Rightarrow> ('w, jsval) prog" where
  "new_client_part0 ext =
     then_do (get_field ''username'') (\<lambda>username.
     then_do (logger_info ext (''Checking account '' @ to_string username)) (\<lambda>_.
     then_do (perform ext (''_.times'', [Val (JNum ''32''), Lib ''Math.random''])) (\<lambda>drawn.
     then_do (case drawn of
                JArr xs \<Rightarrow> ret (JStr (array_join [] xs))
              | JUndefined \<Rightarrow> throw (type_error ''join'' JUndefined)
              | JNull \<Rightarrow> throw (type_error ''join'' JNull)
              | _ \<Rightarrow> throw (Error ''_.times(...).join is not a function'')) (\<lambda>deviceId.
     then_do (get_field ''type'') (\<lambda>type.
     then_do (get_field ''username'') (\<lambda>username.
     then_do (get_field ''password'') (\<lambda>password.
     then_do (config_path [''api'', ''version'']) (\<lambda>version.
     then_do (config_path [''hashkey'']) (\<lambda>hashkey.
     then_do (config_path [''proxy'']) (\<lambda>proxy.
     perform ext (''new pogobuf.Client'',
       [Val (JObj [(''deviceId'', deviceId),
                   (''authType'', type),
                   (''username'', username),
                   (''password'', password),
                   (''version'', version),
                   (''useHashingServer'', JBool True),
                   (''hashingKey'', hashkey),
                   (''includeRequestTypeInResponse'', JBool True),
                   (''proxy'', proxy),
                   (''maxTries'', JNum ''1'')])])))))))))))"

definition store_try_part0 :: "'w externals \<Rightarrow> ('w, unit) prog" where
  "store_try_part0 ext =
     then_do (perform_all ext store_request) (\<lambda>response.
     then_do (perform ext (''JSON.stringify'', [Val response, Val JNull, Val (JNum ''4'')])) (\<lambda>dump.
     then_do (perform ext (''fs.writeFile'', [Val (JStr ''store.json''), Val dump, Val (JStr ''utf8'')])) (\<lambda>_.
     then_do (set_field ''store'' (JBool True)) (\<lambda>_.
     then_do (lift (get_prop response ''items'')) (\<lambda>items.
     then_do (lift (some_js is_iap (elements_of items))) (\<lambda>some.
     set_field ''iap'' (JBool some)))))))"

definition store_phase_part0 :: "'w externals \<Rightarrow> ('w, unit) prog" where
  "store_phase_part0 ext =
     try_catch (store_try_part0 ext)
       (\<lambda>e. then_do (set_field ''store'' (JBool False)) (\<lambda>_.
            set_field ''iap'' (JBool False)))"

definition checkAccount_part0 :: "'w externals \<Rightarrow> ('w, unit) prog" where
  "checkAccount_part0 ext =
     then_do (new_client_part0 ext) (\<lambda>client.
     then_do (loginFlow_part0 ext) (\<lambda>_.
     then_do (store_phase_part0 ext) (\<lambda>_.
     then_do (get_field ''store'') (\<lambda>store.
     then_do (logger_info ext (''  acount has '' @ (if truthy store then [] else ''not '') @ ''access to the store.'')) (\<lambda>_.
     ret ())))))"

definition saveToFile_part0 :: "'w externals \<Rightarrow> account list \<Rightarrow> string \<Rightarrow> ('w, unit) prog" where
  "saveToFile_part0 ext accounts filename =
     then_do (perform ext (''fs.writeFile'',
        [Val (JStr filename),
         Val (JStr (foldl (\<lambda>content account.
                content @ to_string (field account ''username'') @ '','' @
                to_string (field account ''banned'') @ '','' @
                to_string (field account ''warn'') @ '','' @
                to_string (field account ''store'') @ '','' @
                to_string (field account ''iap'') @ [LF])
              (''username,banned,warn,store,iap'' @ [LF]) accounts)),
         Val (JStr ''utf8'')])) (\<lambda>_.
     ret ())"


section \<open>Properties of programs\<close>

text \<open>\<open>writes_only K m\<close>: whatever \<open>m\<close> does, a field of the account whose name is not in \<open>K\<close>
  is afterwards what it was before (present with the same value, or absent).\<close>

definition writes_only :: "string set \<Rightarrow> ('w, 'a) prog \<Rightarrow> bool" where
  "writes_only K m = (\<forall>s k. k \<notin> K \<longrightarrow> map_of (acct (snd (m s))) k = map_of (acct s) k)"

text \<open>
  The statements of \<open>loginFlow\<close> (\<open>index.js\<close>) before and after the two assignments to
  the account: up to the answer to the getPlayer batch, and from the next \<open>batchStart\<close> on.
\<close>

definition login_head :: "'w externals \<Rightarrow> ('w, jsval) prog" where
  "login_head ext =
     then_do (get_field ''latitude'') (\<lambda>account_latitude.
     then_do (if truthy account_latitude then ret account_latitude
              else config_path [''position'', ''latitude'']) (\<lambda>latitude.
     then_do (get_field ''longitude'') (\<lambda>account_longitude.
     then_do (if truthy account_longitude then ret account_longitude
              else config_path [''position'', ''longitude'']) (\<lambda>longitude.
     then_do (perform ext (''_.random'', [Val (JNum ''0''), Val (JNum ''100''), Val (JBool True)])) (\<lambda>altitude.
     then_do (perform ext (''client.setPosition'',
          [Val (JObj [(''latitude'', latitude), (''longitude'', longitude), (''altitude'', altitude)])])) (\<lambda>_.
     then_do (perform ext (''client.init'', [Val (JBool False)])) (\<lambda>_.
     then_do (perform_all ext [(''client.batchStart'', []), (''.batchCall'', [])]) (\<lambda>_.
     then_do (perform ext (''client.batchStart'', [])) (\<lambda>_.
     then_do (config_path [''api'', ''country'']) (\<lambda>country.
     then_do (config_path [''api'', ''language'']) (\<lambda>language.
     then_do (config_path [''api'', ''timezone'']) (\<lambda>timezone.
     perform_all ext
          [(''batch.getPlayer'', [Val country, Val language, Val timezone]),
           (''client.batchCall'', [])]))))))))))))"

definition login_rest :: "'w externals \<Rightarrow> ('w, jsval) prog" where
  "login_rest ext =
     then_do (perform ext (''client.batchStart'', [])) (\<lambda>_.
     then_do (config_path [''api'', ''version'']) (\<lambda>version.
     then_do (perform_all ext
          [(''batch.downloadRemoteConfigVersion'',
              [Lib ''POGOProtos.Enums.Platform.IOS'', Val (JStr []), Val (JStr []), Val (JStr []),
               ToNumber version]),
           (''.checkChallenge'', []),
           (''.getHatchedEggs'', []),
           (''.getInventory'', [Val (JNum ''0'')]),
           (''.checkAwardedBadges'', []),
           (''.downloadSettings'', [Val (JStr [])]),
           (''batch.batchCall'', [])]) (\<lambda>response.
     then_do (lift (find_js (request_type_is (GET_INVENTORY ext)) (elements_of response))) (\<lambda>inventoryResponse.
     then_do (perform ext (''pogobuf.Utils.splitInventory'', [Val inventoryResponse])) (\<lambda>split.
     then_do (lift (get_path split [''player'', ''level''])) (\<lambda>level.
     then_do (lift (get_path inventoryResponse [''inventory_delta'', ''new_timestamp_ms''])) (\<lambda>inventory.
     then_do (lift (find_js (request_type_is (DOWNLOAD_SETTINGS ext)) (elements_of response))) (\<lambda>settingsResponse.
     then_do (lift (get_prop settingsResponse ''hash'')) (\<lambda>settings.
     then_do (perform_all ext
          [(''client.batchStart'', []),
           (''batch.getPlayerProfile'', [Val (JStr [])]),
           (''.checkChallenge'', []),
           (''.getHatchedEggs'', []),
           (''.getInventory'', [Val inventory]),
           (''.checkAwardedBadges'', []),
           (''.downloadSettings'', [Val settings]),
           (''.getBuddyWalked'', []),
           (''batch.batchCall'', [])]) (\<lambda>_.
     then_do (perform_all ext
          [(''client.batchStart'', []),
           (''batch.levelUpRewards'', [Val level]),
           (''.checkChallenge'', []),
           (''.getHatchedEggs'', []),
           (''.getInventory'', [Val inventory]),
           (''.checkAwardedBadges'', []),
           (''.downloadSettings'', [Val settings]),
           (''.getBuddyWalked'', []),
           (''batch.batchCall'', [])]) (\<lambda>_.
     ret (JObj [(''inventory'', inventory), (''settings'', settings)]))))))))))))"

text \<open>\<open>ok r\<close>: the answer \<open>r\<close> is a value, not a throw.\<close>

definition ok :: "error + 'a \<Rightarrow> bool" where
  "ok r = (case r of Inl e \<Rightarrow> False | Inr v \<Rightarrow> True)"

definition call_names :: "event list \<Rightarrow> string list" where
  "call_names evs = map (\<lambda>ev. fst (fst ev)) evs"

text \<open>\<open>silent m\<close>: \<open>m\<close> calls nothing.\<close>

definition silent :: "('w, 'a) prog \<Rightarrow> bool" where
  "silent m = (\<forall>s. calls (snd (m s)) = calls s)"

text \<open>\<open>makes P m\<close>: \<open>m\<close> only adds calls to the record, and every call it adds satisfies \<open>P\<close>.\<close>

definition makes :: "(libcall \<Rightarrow> bool) \<Rightarrow> ('w, 'a) prog \<Rightarrow> bool" where
  "makes P m = (\<forall>s. \<exists>evs. calls (snd (m s)) = calls s @ evs \<and> (\<forall>ev \<in> set evs. P (fst ev)))"


text \<open>\<open>writes_file f c\<close>: the call \<open>c\<close> is \<open>fs.writeFile(f, ...)\<close>.\<close>

definition writes_file :: "string \<Rightarrow> libcall \<Rightarrow> bool" where
  "writes_file f c =
     (fst c = ''fs.writeFile'' \<and> (case snd c of [] \<Rightarrow> False | a # _ \<Rightarrow> a = Val (JStr f)))"



text \<open>
  What a returned \<open>loginFlow\<close> has done with the answers it got, \<open>evs\<close> being the calls it
  made, \<open>a\<close> and \<open>a'\<close> the account before and after, \<open>v\<close> the value returned, and \<open>d\<close> the
  number of calls between the getPlayer batch and the next one (none in \<open>index.js\<close>, the two
  log lines in the other file): \<open>warn\<close> and \<open>banned\<close> are those of the answer to the getPlayer
  batch; the inventory entry of the answer to the next batch gives, through
  \<open>splitInventory\<close>, the level passed to \<open>levelUpRewards\<close>, and its timestamp, and the
  settings entry its hash, both passed to the last two batches and returned.
\<close>

definition login_result ::
  "'w externals \<Rightarrow> account \<Rightarrow> jsval \<Rightarrow> account \<Rightarrow> event list \<Rightarrow> nat \<Rightarrow> bool" where
  "login_result ext a v a' evs d =
     (\<exists>player page inventoryResponse split level inventory settingsResponse settings warn banned.
        evs ! 7 = ((''client.batchCall'', []), Inr player) \<and>
        get_prop player ''warn'' = Inr warn \<and> get_prop player ''banned'' = Inr banned \<and>
        a' = AList.update ''banned'' banned (AList.update ''warn'' warn a) \<and>
        evs ! (15 + d) = ((''batch.batchCall'', []), Inr page) \<and>
        find_js (request_type_is (GET_INVENTORY ext)) (elements_of page) = Inr inventoryResponse \<and>
        evs ! (16 + d) = ((''pogobuf.Utils.splitInventory'', [Val inventoryResponse]), Inr split) \<and>
        get_path split [''player'', ''level''] = Inr level \<and>
        get_path inventoryResponse [''inventory_delta'', ''new_timestamp_ms''] = Inr inventory \<and>
        find_js (request_type_is (DOWNLOAD_SETTINGS ext)) (elements_of page) = Inr settingsResponse \<and>
        get_prop settingsResponse ''hash'' = Inr settings \<and>
        fst (evs ! (21 + d)) = (''.getInventory'', [Val inventory]) \<and>
        fst (evs ! (23 + d)) = (''.downloadSettings'', [Val settings]) \<and>
        fst (evs ! (27 + d)) = (''batch.levelUpRewards'', [Val level]) \<and>
        fst (evs ! (30 + d)) = (''.getInventory'', [Val inventory]) \<and>
        fst (evs ! (32 + d)) = (''.downloadSettings'', [Val settings]) \<and>
        v = JObj [(''inventory'', inventory), (''settings'', settings)])"

text \<open>The columns of the report, in the order of the template literal of \<open>saveToFile\<close>.\<close>

definition report_columns :: "string list" where
  "report_columns = [''username'', ''banned'', ''warn'', ''store'', ''iap'']"

text \<open>
  \<open>writes_report accounts filename evs\<close>: the calls \<open>evs\<close> are the one call
  \<open>fs.writeFile(filename, content, 'utf8')\<close>, where \<open>content\<close> is the header line and
  then, for each account in the order of the list, its five columns as JavaScript prints
  them, separated by commas and ended by a line feed. A column that is a string is written
  as it is, a boolean as \<open>true\<close> or \<open>false\<close>, a missing one as \<open>undefined\<close>. Where
  no printed column holds a line feed or a comma, \<open>content.split('\n')\<close> is the header,
  then one line per account, then the empty string after the last line feed, and the line of
  an account splits at its commas into exactly its five columns.
\<close>

definition writes_report :: "account list \<Rightarrow> string \<Rightarrow> event list \<Rightarrow> bool" where
  "writes_report accounts filename evs =
     (\<exists>content r.
        evs = [((''fs.writeFile'', [Val (JStr filename), Val (JStr content), Val (JStr ''utf8'')]), r)] \<and>
        content = ''username,banned,warn,store,iap'' @ [LF] @
          concat (map (\<lambda>a. join '','' (map (\<lambda>k. to_string (field a k)) report_columns) @ [LF]) accounts) \<and>
        (\<forall>a \<in> set accounts. \<forall>k \<in> set report_columns.
           (\<forall>u. field a k = JStr u \<longrightarrow> to_string (field a k) = u) \<and>
           (field a k = JBool True \<longrightarrow> to_string (field a k) = ''true'') \<and>
           (field a k = JBool False \<longrightarrow> to_string (field a k) = ''false'') \<and>
           (field a k = JUndefined \<longrightarrow> to_string (field a k) = ''undefined'')) \<and>
        ((\<forall>a \<in> set accounts. \<forall>k \<in> set report_columns.
            LF \<notin> set (to_string (field a k)) \<and> CHR '','' \<notin> set (to_string (field a k))) \<longrightarrow>
           split_js content [LF] =
             ''username,banned,warn,store,iap'' #
             map (\<lambda>a. join '','' (map (\<lambda>k. to_string (field a k)) report_columns)) accounts @ [[]] \<and>
           (\<forall>a \<in> set accounts.
              split_js (join '','' (map (\<lambda>k. to_string (field a k)) report_columns)) '','' =
                map (\<lambda>k. to_string (field a k)) report_columns)))"













section \<open>A scripted environment\<close>

text \<open>
  For concrete runs: the world is the list of answers still to give, handed out one per
  call whatever the call is (\<open>undefined\<close> once the list is used up); the CSV parser gives
  the rows \<open>rows\<close> for every text.
\<close>

definition scripted :: "(error + jsval) list \<Rightarrow> libcall \<Rightarrow> (error + jsval) \<times> (error + jsval) list" where
  "scripted w c = (case w of [] \<Rightarrow> (Inr JUndefined, []) | r # rs \<Rightarrow> (r, rs))"

definition script_ext :: "account list \<Rightarrow> (error + jsval) list externals" where
  "script_ext rows =
     \<lparr>lib = scripted, csvImport = (\<lambda>content options. Inr rows), GET_INVENTORY = ''4'', DOWNLOAD_SETTINGS = ''5''\<rparr>"

definition start :: "jsval \<Rightarrow> account \<Rightarrow> (error + jsval) list \<Rightarrow> (error + jsval) list state" where
  "start cfg a w = \<lparr>world = w, calls = [], config = cfg, acct = a\<rparr>"

definition ash :: account where
  "ash = [(''type'', JStr ''ptc''), (''username'', JStr ''ash''), (''password'', JStr ''pika'')]"

definition quiet :: "nat \<Rightarrow> (error + jsval) list" where
  "quiet n = replicate n (Inr JUndefined)"

text \<open>A configuration as \<open>config.json\<close> completes it: with a position and a hashing key.\<close>

definition demo_config :: jsval where
  "demo_config =
     JObj [(''api'', JObj [(''version'', JNum ''6304''), (''country'', JStr ''FR''),
                           (''language'', JStr ''fr''), (''timezone'', JStr ''Europe/Paris'')]),
           (''delimiter'', JStr '',''),
           (''loglevel'', JStr ''debug''),
           (''position'', JObj [(''latitude'', JNum ''48''), (''longitude'', JNum ''2'')]),
           (''hashkey'', JStr ''K'')]"

text \<open>Answers of a healthy server: to the getPlayer batch, and to the batch after it.\<close>

definition player :: jsval where
  "player = JObj [(''warn'', JBool False), (''banned'', JBool False)]"

definition page :: jsval where
  "page =
     JArr [JObj [(''_requestType'', JNum ''7'')],
           JObj [(''_requestType'', JNum ''4''),
                 (''inventory_delta'', JObj [(''new_timestamp_ms'', JNum ''1500'')])],
           JObj [(''_requestType'', JNum ''5''), (''hash'', JStr ''abc'')]]"



definition good_client :: "(error + jsval) list" where
  "good_client = [Inr JUndefined, Inr (JArr [JStr ''4'', JStr ''f'']), Inr (JObj [])]"

definition good_login :: "(error + jsval) list" where
  "good_login =
     [Inr (JNum ''50'')] @ quiet 3 @ [Inr (JBool False)] @ quiet 2 @ [Inr player] @ quiet 7 @
     [Inr page, Inr (JObj [(''player'', JObj [(''level'', JNum ''12'')])])] @ quiet 18"

definition good_login_part0 :: "(error + jsval) list" where
  "good_login_part0 =
     [Inr (JNum ''5'')] @ quiet 3 @ [Inr (JBool False)] @ quiet 2 @ [Inr player] @ quiet 9 @
     [Inr page, Inr (JObj [(''player'', JObj [(''level'', JNum ''12'')])])] @ quiet 18"

definition good_store :: "(error + jsval) list" where
  "good_store = quiet 2 @ [Inr (JObj [(''items'', JArr [JObj [(''is_iap'', JBool True)]])])]"

text \<open>A \<open>loginFlow\<close> that the server refuses at \<open>client.init\<close>, as it does a banned account.\<close>

text \<open>
  The other file: its \<open>loadAccount\<close> reading two lines, and the dump to \<open>store.json\<close>
  going through. \<open>misty\<close> is the second account, and \<open>brock\<close> a row of a CSV file whose
  header also names a position.
\<close>

definition good_load_part0 :: "(error + jsval) list" where
  "good_load_part0 = [Inr (JBool True), Inr (JStr (''ptc,ash,pika'' @ [LF] @ ''google,misty,star''))]"

definition good_store_part0 :: "(error + jsval) list" where
  "good_store_part0 = good_store @ [Inr (JStr ''{}''), Inr JUndefined]"

definition misty :: account where
  "misty = [(''type'', JStr ''google''), (''username'', JStr ''misty''), (''password'', JStr ''star'')]"

definition brock :: account where
  "brock = [(''type'', JStr ''ptc''), (''username'', JStr ''brock''), (''password'', JStr ''onix''),
            (''latitude'', JStr ''35.6''), (''longitude'', JStr ''139.7'')]"


text \<open>
  A \<open>loginFlow\<close> whose connection is lost: at \<open>client.init\<close>, or in the batch after the
  getPlayer answer. A store request whose dump to \<open>store.json\<close> fails (the other file).
\<close>

definition early_timeout :: "(error + jsval) list" where
  "early_timeout = [Inr (JNum ''50''), Inr JUndefined, Inl (Error ''ETIMEDOUT'')]"

definition late_timeout :: "(error + jsval) list" where
  "late_timeout =
     [Inr (JNum ''50'')] @ quiet 3 @ [Inr (JBool False)] @ quiet 2 @ [Inr player] @ quiet 7 @
     [Inl (Error ''ETIMEDOUT'')]"


definition refused_login :: "(error + jsval) list" where
  "refused_login = [Inr (JNum ''50''), Inr JUndefined, Inl (Error ''Status code 3 received from RPC'')]"

text \<open>
  A record whose username holds a line feed, as a quoted field of a CSV file can, and one
  that has been checked.
\<close>

definition jessie :: account where
  "jessie = [(''type'', JStr ''ptc''), (''username'', JStr (''jessie'' @ [LF] @ ''james'')),
             (''password'', JStr ''meowth'')]"

definition gary :: account where
  "gary = [(''type'', JStr ''ptc''), (''username'', JStr ''gary''), (''password'', JStr ''eevee''),
           (''warn'', JBool False), (''banned'', JBool True), (''store'', JBool True),
           (''iap'', JBool False)]"

text \<open>A \<open>loginFlow\<close> whose \<open>client.init\<close> rejects with a string, not an error object.\<close>

definition rejected_login :: "(error + jsval) list" where
  "rejected_login = [Inr (JNum ''50''), Inr JUndefined, Inl (Thrown (JStr ''socket hang up''))]"

section \<open>Sequencing lemmas\<close>

lemma then_do_assoc: "then_do (then_do m g) f = then_do m (\<lambda>x. then_do (g x) f)"
  by (auto simp: then_do_def fun_eq_iff split: prod.splits sum.splits)

lemma then_do_Inr:
  "then_do m f s = (Inr v, s') \<longleftrightarrow> (\<exists>x s1. m s = (Inr x, s1) \<and> f x s1 = (Inr v, s'))"
  by (auto simp: then_do_def split: prod.splits sum.splits)

lemma then_do_Inl:
  "then_do m f s = (Inl e, s') \<longleftrightarrow>
     m s = (Inl e, s') \<or> (\<exists>x s1. m s = (Inr x, s1) \<and> f x s1 = (Inl e, s'))"
  by (auto simp: then_do_def split: prod.splits sum.splits)

lemma foldl_append_concat: "foldl (\<lambda>acc x. acc @ f x) init xs = init @ concat (map f xs)"
  by (induction xs arbitrary: init) simp_all

section \<open>The report\<close>

lemma split_from_piece:
  "d \<notin> set xs \<Longrightarrow> split_from [d] cur (xs @ d # rest) = (rev cur @ xs) # split_from [d] [] rest"
  by (induction xs arbitrary: cur) auto

lemma split_from_last: "d \<notin> set xs \<Longrightarrow> split_from [d] cur xs = [rev cur @ xs]"
  by (induction xs arbitrary: cur) auto

lemma split_lines:
  "\<forall>r \<in> set rows. d \<notin> set r \<Longrightarrow>
     split_from [d] [] (concat (map (\<lambda>r. r @ [d]) rows)) = rows @ [[]]"
proof (induction rows)
  case Nil
  then show ?case by simp
next
  case (Cons r rows)
  then have "d \<notin> set r" by simp
  from split_from_piece[OF this, of "[]" "concat (map (\<lambda>r. r @ [d]) rows)"] Cons
  show ?case by simp
qed

lemma split_join:
  "cells \<noteq> [] \<Longrightarrow> \<forall>c \<in> set cells. d \<notin> set c \<Longrightarrow> split_from [d] [] (join [d] cells) = cells"
proof (induction "[d]" cells rule: join.induct)
  case 1
  then show ?case by simp
next
  case (2 x)
  then show ?case by (simp add: split_from_last)
next
  case (3 x y ys)
  then have "d \<notin> set x" by simp
  from split_from_piece[OF this, of "[]" "join [d] (y # ys)"] 3
  show ?case by simp
qed

lemma set_join: "set (join sep xs) \<subseteq> set sep \<union> \<Union> (set ` set xs)"
  by (induction sep xs rule: join.induct) auto

lemma lines_of_rows:
  assumes "d \<notin> set h" and "\<forall>a \<in> set xs. d \<notin> set (row a)"
  shows "split_js (h @ [d] @ concat (map (\<lambda>a. row a @ [d]) xs)) [d] = h # map row xs @ [[]]"
proof -
  from assms have "\<forall>r \<in> set (h # map row xs). d \<notin> set r" by auto
  from split_lines[OF this]
  have "split_from [d] [] (concat (map (\<lambda>r. r @ [d]) (h # map row xs))) = (h # map row xs) @ [[]]" .
  moreover have "concat (map (\<lambda>r. r @ [d]) (h # map row xs)) =
      h @ [d] @ concat (map (\<lambda>a. row a @ [d]) xs)"
    by (simp add: comp_def)
  ultimately show ?thesis by (simp add: split_js_def)
qed

lemma report_lines:
  assumes "\<forall>a \<in> set accounts. \<forall>k \<in> set report_columns.
            LF \<notin> set (to_string (field a k)) \<and> CHR '','' \<notin> set (to_string (field a k))"
  shows "split_js (''username,banned,warn,store,iap'' @ [LF] @
           concat (map (\<lambda>a. join '','' (map (\<lambda>k. to_string (field a k)) report_columns) @ [LF]) accounts)) [LF] =
         ''username,banned,warn,store,iap'' #
           map (\<lambda>a. join '','' (map (\<lambda>k. to_string (field a k)) report_columns)) accounts @ [[]]"
proof (rule lines_of_rows)
  show "LF \<notin> set ''username,banned,warn,store,iap''" by (simp add: LF_def)
  show "\<forall>a \<in> set accounts. LF \<notin> set (join '','' (map (\<lambda>k. to_string (field a k)) report_columns))"
  proof
    fix a assume a: "a \<in> set accounts"
    from set_join[of "'',''" "map (\<lambda>k. to_string (field a k)) report_columns"]
    have "set (join '','' (map (\<lambda>k. to_string (field a k)) report_columns)) \<subseteq>
        set '','' \<union> \<Union> (set ` set (map (\<lambda>k. to_string (field a k)) report_columns))" .
    moreover have "LF \<notin> set '',''" by (simp add: LF_def)
    moreover from assms a have "LF \<notin> \<Union> (set ` set (map (\<lambda>k. to_string (field a k)) report_columns))"
      by auto
    ultimately show "LF \<notin> set (join '','' (map (\<lambda>k. to_string (field a k)) report_columns))" by blast
  qed
qed

lemma report_cells:
  assumes "\<forall>k \<in> set report_columns. CHR '','' \<notin> set (to_string (field a k))"
  shows "split_js (join '','' (map (\<lambda>k. to_string (field a k)) report_columns)) '','' =
           map (\<lambda>k. to_string (field a k)) report_columns"
proof -
  have "map (\<lambda>k. to_string (field a k)) report_columns \<noteq> []" by (simp add: report_columns_def)
  moreover from assms have "\<forall>c \<in> set (map (\<lambda>k. to_string (field a k)) report_columns). CHR '','' \<notin> set c"
    by auto
  ultimately show ?thesis using split_join[of "map (\<lambda>k. to_string (field a k)) report_columns" "CHR '',''"]
    by (simp add: split_js_def)
qed

lemma report_content:
  "foldl (\<lambda>content account.
            content @ to_string (field account ''username'') @ '','' @
            to_string (field account ''banned'') @ '','' @
            to_string (field account ''warn'') @ '','' @
            to_string (field account ''store'') @ '','' @
            to_string (field account ''iap'') @ [LF])
     (''username,banned,warn,store,iap'' @ [LF]) accounts =
   ''username,banned,warn,store,iap'' @ [LF] @
     concat (map (\<lambda>a. join '','' (map (\<lambda>k. to_string (field a k)) report_columns) @ [LF]) accounts)"
  by (simp add: foldl_append_concat report_columns_def)

lemma writes_reportI:
  "writes_report accounts filename
     [((''fs.writeFile'',
        [Val (JStr filename),
         Val (JStr (''username,banned,warn,store,iap'' @ [LF] @
           concat (map (\<lambda>a. join '','' (map (\<lambda>k. to_string (field a k)) report_columns) @ [LF]) accounts))),
         Val (JStr ''utf8'')]), r)]"
  unfolding writes_report_def
proof (intro exI conjI impI ballI allI)
  assume h: "\<forall>a \<in> set accounts. \<forall>k \<in> set report_columns.
            LF \<notin> set (to_string (field a k)) \<and> CHR '','' \<notin> set (to_string (field a k))"
  from report_lines[OF h]
  show "split_js (''username,banned,warn,store,iap'' @ [LF] @
           concat (map (\<lambda>a. join '','' (map (\<lambda>k. to_string (field a k)) report_columns) @ [LF]) accounts)) [LF] =
         ''username,banned,warn,store,iap'' #
           map (\<lambda>a. join '','' (map (\<lambda>k. to_string (field a k)) report_columns)) accounts @ [[]]" .
  fix a assume "a \<in> set accounts"
  with h have "\<forall>k \<in> set report_columns. CHR '','' \<notin> set (to_string (field a k))" by blast
  from report_cells[OF this]
  show "split_js (join '','' (map (\<lambda>k. to_string (field a k)) report_columns)) '','' =
           map (\<lambda>k. to_string (field a k)) report_columns" .
qed simp_all

text \<open>
  C1, as amended. \<open>saveToFile\<close>, in both files, makes one call,
  \<open>fs.writeFile(filename, content, 'utf8')\<close>, where \<open>content\<close> is the header line
  \<open>username,banned,warn,store,iap\<close> followed, for each account in the order of the list, by
  its \<open>username\<close>, \<open>banned\<close>, \<open>warn\<close>, \<open>store\<close> and \<open>iap\<close> as JavaScript
  prints them (a string as it is, a boolean as \<open>true\<close> or \<open>false\<close>, a missing field as
  \<open>undefined\<close>), separated by commas and ended by a line feed. That is the header and
  exactly one line per account, each of exactly five columns, where no printed field holds a
  line feed or a comma.
\<close>

theorem saveToFile_report:
  "(\<exists>evs. calls (snd (saveToFile ext accounts filename s)) = calls s @ evs \<and>
      writes_report accounts filename evs) \<and>
   (\<exists>evs. calls (snd (saveToFile_part0 ext accounts filename s)) = calls s @ evs \<and>
      writes_report accounts filename evs)"
proof -
  obtain r w where l: "lib ext (world s)
      (''fs.writeFile'',
        [Val (JStr filename),
         Val (JStr (''username,banned,warn,store,iap'' @ [LF] @
           concat (map (\<lambda>a. join '','' (map (\<lambda>k. to_string (field a k)) report_columns) @ [LF]) accounts))),
         Val (JStr ''utf8'')]) = (r, w)"
    by (cases "lib ext (world s)
      (''fs.writeFile'',
        [Val (JStr filename),
         Val (JStr (''username,banned,warn,store,iap'' @ [LF] @
           concat (map (\<lambda>a. join '','' (map (\<lambda>k. to_string (field a k)) report_columns) @ [LF]) accounts))),
         Val (JStr ''utf8'')])")
  have 1: "calls (snd (saveToFile ext accounts filename s)) = calls s @
     [((''fs.writeFile'',
        [Val (JStr filename),
         Val (JStr (''username,banned,warn,store,iap'' @ [LF] @
           concat (map (\<lambda>a. join '','' (map (\<lambda>k. to_string (field a k)) report_columns) @ [LF]) accounts))),
         Val (JStr ''utf8'')]), r)]"
    unfolding saveToFile_def report_content
    using l by (simp add: then_do_def perform_def ret_def split: sum.splits)
  have 2: "calls (snd (saveToFile_part0 ext accounts filename s)) = calls s @
     [((''fs.writeFile'',
        [Val (JStr filename),
         Val (JStr (''username,banned,warn,store,iap'' @ [LF] @
           concat (map (\<lambda>a. join '','' (map (\<lambda>k. to_string (field a k)) report_columns) @ [LF]) accounts))),
         Val (JStr ''utf8'')]), r)]"
    unfolding saveToFile_part0_def report_content
    using l by (simp add: then_do_def perform_def ret_def split: sum.splits)
  from 1 2 writes_reportI[of accounts filename r] show ?thesis by blast
qed

text \<open>
  Against C1 as stated (exactly one line per account): one account whose username holds a
  line feed, which \<open>index.js\<close> can read from a quoted field of the input file. The
  report has two lines after the header.
\<close>

theorem saveToFile_line_feed:
  "map fst (calls (snd (saveToFile (script_ext []) [jessie] ''output.csv'' (start default_config [] [])))) =
     [(''fs.writeFile'',
       [Val (JStr ''output.csv''),
        Val (JStr (''username,banned,warn,store,iap'' @ [LF] @ ''jessie'' @ [LF] @
                   ''james,undefined,undefined,undefined,undefined'' @ [LF])),
        Val (JStr ''utf8'')])] \<and>
   split_js (''username,banned,warn,store,iap'' @ [LF] @ ''jessie'' @ [LF] @
             ''james,undefined,undefined,undefined,undefined'' @ [LF]) [LF] =
     [''username,banned,warn,store,iap'', ''jessie'',
      ''james,undefined,undefined,undefined,undefined'', []]"
  by code_simp

theorem saveToFile_report_witness:
  "\<exists>r. calls (snd (saveToFile (script_ext []) [gary, misty] ''output.csv'' (start default_config [] []))) =
     [((''fs.writeFile'',
        [Val (JStr ''output.csv''),
         Val (JStr (''username,banned,warn,store,iap'' @ [LF] @ ''gary,true,false,true,false'' @ [LF] @
                    ''misty,undefined,undefined,undefined,undefined'' @ [LF])),
         Val (JStr ''utf8'')]), r)] \<and>
   split_js (''username,banned,warn,store,iap'' @ [LF] @ ''gary,true,false,true,false'' @ [LF] @
             ''misty,undefined,undefined,undefined,undefined'' @ [LF]) [LF] =
     [''username,banned,warn,store,iap'', ''gary,true,false,true,false'',
      ''misty,undefined,undefined,undefined,undefined'', []] \<and>
   split_js ''gary,true,false,true,false'' '','' = [''gary'', ''true'', ''false'', ''true'', ''false'']"
proof -
  let ?s = "start default_config [] [] :: (error + jsval) list state"
  have free: "\<forall>a \<in> set [gary, misty]. \<forall>k \<in> set report_columns.
      LF \<notin> set (to_string (field a k)) \<and> CHR '','' \<notin> set (to_string (field a k))"
    by (simp add: gary_def misty_def report_columns_def field_def LF_def)
  have rows: "map (\<lambda>a. join '','' (map (\<lambda>k. to_string (field a k)) report_columns)) [gary, misty] =
      [''gary,true,false,true,false'', ''misty,undefined,undefined,undefined,undefined'']"
    by (simp add: gary_def misty_def report_columns_def field_def)
  have cells: "map (\<lambda>k. to_string (field gary k)) report_columns =
      [''gary'', ''true'', ''false'', ''true'', ''false'']"
    by (simp add: gary_def report_columns_def field_def)
  from saveToFile_report[of "script_ext []" "[gary, misty]" "''output.csv''" ?s]
  obtain evs where e: "calls (snd (saveToFile (script_ext []) [gary, misty] ''output.csv'' ?s)) = calls ?s @ evs"
    and w: "writes_report [gary, misty] ''output.csv'' evs" by blast
  from w free obtain content r where
    c: "evs = [((''fs.writeFile'', [Val (JStr ''output.csv''), Val (JStr content), Val (JStr ''utf8'')]), r)]"
    and t: "content = ''username,banned,warn,store,iap'' @ [LF] @
          concat (map (\<lambda>a. join '','' (map (\<lambda>k. to_string (field a k)) report_columns) @ [LF]) [gary, misty])"
    and l: "split_js content [LF] =
             ''username,banned,warn,store,iap'' #
             map (\<lambda>a. join '','' (map (\<lambda>k. to_string (field a k)) report_columns)) [gary, misty] @ [[]]"
    and g: "\<forall>a \<in> set [gary, misty].
              split_js (join '','' (map (\<lambda>k. to_string (field a k)) report_columns)) '','' =
                map (\<lambda>k. to_string (field a k)) report_columns"
    unfolding writes_report_def by blast
  have t': "content = ''username,banned,warn,store,iap'' @ [LF] @ ''gary,true,false,true,false'' @ [LF] @
                    ''misty,undefined,undefined,undefined,undefined'' @ [LF]"
    unfolding t by (simp add: gary_def misty_def report_columns_def field_def)
  from g have "split_js (join '','' (map (\<lambda>k. to_string (field gary k)) report_columns)) '','' =
                map (\<lambda>k. to_string (field gary k)) report_columns" by simp
  then have 3: "split_js ''gary,true,false,true,false'' '','' = [''gary'', ''true'', ''false'', ''true'', ''false'']"
    by (simp add: gary_def report_columns_def field_def)
  from l have 2: "split_js content [LF] =
     [''username,banned,warn,store,iap'', ''gary,true,false,true,false'',
      ''misty,undefined,undefined,undefined,undefined'', []]"
    unfolding rows by simp
  have 1: "calls (snd (saveToFile (script_ext []) [gary, misty] ''output.csv'' ?s)) =
     [((''fs.writeFile'', [Val (JStr ''output.csv''), Val (JStr content), Val (JStr ''utf8'')]), r)]"
    using e c by (simp add: start_def)
  from 1 2 3 show ?thesis unfolding t' by blast
qed

text \<open>
  C10. The two \<open>saveToFile\<close> are the same function: for every list of accounts, file name
  and state they make the same call with the same content and end in the same state.
\<close>

theorem saveToFile_versions_equal:
  "saveToFile ext accounts filename s = saveToFile_part0 ext accounts filename s"
  by (simp add: saveToFile_def saveToFile_part0_def)

section \<open>The fields checkAccount writes\<close>

lemma writes_only_ret: "writes_only K (ret x)"
  by (simp add: writes_only_def ret_def)

lemma writes_only_throw: "writes_only K (throw e)"
  by (simp add: writes_only_def throw_def)

lemma writes_only_lift: "writes_only K (lift r)"
  by (simp add: writes_only_def lift_def)

lemma writes_only_get_field: "writes_only K (get_field k)"
  by (simp add: writes_only_def get_field_def)

lemma writes_only_config_path: "writes_only K (config_path ps)"
  by (simp add: writes_only_def config_path_def)

lemma writes_only_set_config: "writes_only K (set_config v)"
  by (simp add: writes_only_def set_config_def)

lemma writes_only_perform: "writes_only K (perform ext c)"
  by (simp add: writes_only_def perform_def split: prod.splits)

lemma writes_only_set_field: "k \<in> K \<Longrightarrow> writes_only K (set_field k v)"
  by (auto simp: writes_only_def set_field_def update_conv')

lemma writes_only_then:
  assumes "writes_only K m" and "\<And>x. writes_only K (f x)"
  shows "writes_only K (then_do m f)"
  unfolding writes_only_def
proof (intro allI impI)
  fix s k assume k: "k \<notin> K"
  obtain r s1 where m: "m s = (r, s1)" by (cases "m s")
  from assms(1) k m have 1: "map_of (acct s1) k = map_of (acct s) k"
    by (metis writes_only_def snd_conv)
  show "map_of (acct (snd (then_do m f s))) k = map_of (acct s) k"
  proof (cases r)
    case (Inl e)
    with m 1 show ?thesis by (simp add: then_do_def)
  next
    case (Inr x)
    from assms(2)[of x] k have "map_of (acct (snd (f x s1))) k = map_of (acct s1) k"
      by (simp add: writes_only_def)
    with m 1 Inr show ?thesis by (simp add: then_do_def)
  qed
qed

lemma writes_only_try:
  assumes "writes_only K m" and "\<And>e. writes_only K (h e)"
  shows "writes_only K (try_catch m h)"
  unfolding writes_only_def
proof (intro allI impI)
  fix s k assume k: "k \<notin> K"
  obtain r s1 where m: "m s = (r, s1)" by (cases "m s")
  from assms(1) k m have 1: "map_of (acct s1) k = map_of (acct s) k"
    by (metis writes_only_def snd_conv)
  show "map_of (acct (snd (try_catch m h s))) k = map_of (acct s) k"
  proof (cases r)
    case (Inr x)
    with m 1 show ?thesis by (simp add: try_catch_def)
  next
    case (Inl e)
    from assms(2)[of e] k have "map_of (acct (snd (h e s1))) k = map_of (acct s1) k"
      by (simp add: writes_only_def)
    with m 1 Inl show ?thesis by (simp add: try_catch_def)
  qed
qed

lemma writes_only_if:
  "writes_only K a \<Longrightarrow> writes_only K b \<Longrightarrow> writes_only K (if c then a else b)"
  by simp

lemma writes_only_perform_all: "writes_only K (perform_all ext cs)"
  by (induction ext cs rule: perform_all.induct)
     (simp_all add: writes_only_ret writes_only_perform writes_only_then)

lemma writes_only_join:
  "writes_only K (case drawn of
                JArr xs \<Rightarrow> ret (JStr (array_join [] xs))
              | JUndefined \<Rightarrow> throw (type_error ''join'' JUndefined)
              | JNull \<Rightarrow> throw (type_error ''join'' JNull)
              | _ \<Rightarrow> throw (Error ''_.times(...).join is not a function''))"
  by (cases drawn) (simp_all add: writes_only_ret writes_only_throw)

lemmas writes_only_intros =
  writes_only_then writes_only_try writes_only_if writes_only_ret writes_only_throw
  writes_only_lift writes_only_get_field writes_only_config_path writes_only_set_config
  writes_only_perform writes_only_perform_all writes_only_join

lemma writes_only_loginFlow: "writes_only {''warn'', ''banned''} (loginFlow ext)"
  unfolding loginFlow_def
  by (intro writes_only_intros writes_only_set_field) simp_all

lemma writes_only_new_client: "writes_only {} (new_client ext)"
  unfolding new_client_def logger_info_def
  by (intro writes_only_intros)

lemma writes_only_login_phase: "writes_only {''warn'', ''banned''} (login_phase ext)"
  unfolding login_phase_def
  by (intro writes_only_intros writes_only_set_field writes_only_loginFlow) simp_all

lemma writes_only_store_phase: "writes_only {''store'', ''iap''} (store_phase ext)"
  unfolding store_phase_def store_try_def
  by (intro writes_only_intros writes_only_set_field) simp_all

lemma writes_only_report_log: "writes_only {} (report_log ext)"
  unfolding report_log_def logger_info_def
  by (intro writes_only_intros)

lemma writes_only_mono: "writes_only K m \<Longrightarrow> K \<subseteq> K' \<Longrightarrow> writes_only K' m"
  by (auto simp: writes_only_def)

lemma writes_only_checkAccount:
  "writes_only {''warn'', ''banned'', ''store'', ''iap''} (checkAccount ext)"
  unfolding checkAccount_def
  by (intro writes_only_then
        writes_only_mono[OF writes_only_new_client]
        writes_only_mono[OF writes_only_login_phase]
        writes_only_mono[OF writes_only_store_phase]
        writes_only_mono[OF writes_only_report_log]) auto

text \<open>
  C9. Whatever the environment answers and however \<open>checkAccount\<close> of \<open>src/index.js\<close> ends,
  a field of the account other than \<open>warn\<close>, \<open>banned\<close>, \<open>store\<close> and \<open>iap\<close> (so \<open>type\<close>,
  \<open>username\<close> and \<open>password\<close>) is afterwards what it was before; the same holds of the
  \<open>loginFlow\<close> it runs, which writes \<open>warn\<close> and \<open>banned\<close> only.
\<close>

theorem checkAccount_frame:
  "k \<notin> {''warn'', ''banned'', ''store'', ''iap''} \<Longrightarrow>
     map_of (acct (snd (checkAccount ext s))) k = map_of (acct s) k \<and>
     map_of (acct (snd (loginFlow ext s))) k = map_of (acct s) k"
  using writes_only_checkAccount[of ext] writes_only_loginFlow[of ext]
  by (simp add: writes_only_def)

theorem checkAccount_frame_witness:
  "''username'' \<notin> {''warn'', ''banned'', ''store'', ''iap''} \<and>
   map_of (acct (snd (checkAccount (script_ext [])
      (start demo_config ash (good_client @ good_login @ good_store))))) ''username'' =
     Some (JStr ''ash'') \<and>
   map_of (acct (snd (loginFlow (script_ext []) (start demo_config ash good_login)))) ''password'' =
     Some (JStr ''pika'')"
  using checkAccount_frame[of "''username''" "script_ext []"
          "start demo_config ash (good_client @ good_login @ good_store)"]
        checkAccount_frame[of "''password''" "script_ext []" "start demo_config ash good_login"]
  by (simp add: start_def ash_def)

section \<open>Calls\<close>

lemma ok_simps [simp]: "ok (Inr v)" "\<not> ok (Inl e)"
  by (simp_all add: ok_def)

lemma silent_ret: "silent (ret x)"
  by (simp add: silent_def ret_def)

lemma silent_throw: "silent (throw e)"
  by (simp add: silent_def throw_def)

lemma silent_lift: "silent (lift r)"
  by (simp add: silent_def lift_def)

lemma silent_get_field: "silent (get_field k)"
  by (simp add: silent_def get_field_def)

lemma silent_set_field: "silent (set_field k v)"
  by (simp add: silent_def set_field_def)

lemma silent_config_path: "silent (config_path ps)"
  by (simp add: silent_def config_path_def)

lemma silent_set_config: "silent (set_config v)"
  by (simp add: silent_def set_config_def)

lemma silent_if: "silent a \<Longrightarrow> silent b \<Longrightarrow> silent (if c then a else b)"
  by simp

lemma silent_join:
  "silent (case drawn of
             JArr xs \<Rightarrow> ret (JStr (array_join [] xs))
           | JUndefined \<Rightarrow> throw (type_error ''join'' JUndefined)
           | JNull \<Rightarrow> throw (type_error ''join'' JNull)
           | _ \<Rightarrow> throw (Error ''_.times(...).join is not a function''))"
  by (cases drawn) (simp_all add: silent_ret silent_throw)

lemma silent_split:
  "silent (case content of
             JStr text \<Rightarrow> ret (lines_from [] text)
           | JUndefined \<Rightarrow> throw (type_error ''split'' JUndefined)
           | JNull \<Rightarrow> throw (type_error ''split'' JNull)
           | _ \<Rightarrow> throw (Error ''content.split is not a function''))"
  by (cases content) (simp_all add: silent_ret silent_throw)

lemmas silent_intros =
  silent_if silent_ret silent_throw silent_lift silent_get_field silent_set_field
  silent_config_path silent_set_config silent_join silent_split

lemma makes_silent: "silent m \<Longrightarrow> makes P m"
  by (simp add: makes_def silent_def)

lemma makes_perform: "P c \<Longrightarrow> makes P (perform (ext :: 'w externals) c)"
  unfolding makes_def
proof
  fix s :: "'w state"
  assume "P c"
  then show "\<exists>evs. calls (snd (perform ext c s)) = calls s @ evs \<and> (\<forall>ev \<in> set evs. P (fst ev))"
    by (intro exI[of _ "[(c, fst (lib ext (world s) c))]"]) (simp add: perform_def split: prod.splits)
qed

lemma makes_then:
  assumes "makes P m" and "\<And>x. makes P (f x)"
  shows "makes P (then_do m f)"
  unfolding makes_def
proof
  fix s
  obtain r s1 where m: "m s = (r, s1)" by (cases "m s")
  from assms(1) m obtain evs1 where 1: "calls s1 = calls s @ evs1" "\<forall>ev \<in> set evs1. P (fst ev)"
    unfolding makes_def by (metis snd_conv)
  show "\<exists>evs. calls (snd (then_do m f s)) = calls s @ evs \<and> (\<forall>ev \<in> set evs. P (fst ev))"
  proof (cases r)
    case (Inl e)
    with m 1 show ?thesis by (intro exI[of _ evs1]) (simp add: then_do_def)
  next
    case (Inr x)
    from assms(2)[of x] obtain evs2 where
      2: "calls (snd (f x s1)) = calls s1 @ evs2" "\<forall>ev \<in> set evs2. P (fst ev)"
      unfolding makes_def by blast
    with m 1 Inr show ?thesis by (intro exI[of _ "evs1 @ evs2"]) (auto simp: then_do_def)
  qed
qed

lemma makes_try:
  assumes "makes P m" and "\<And>e. makes P (h e)"
  shows "makes P (try_catch m h)"
  unfolding makes_def
proof
  fix s
  obtain r s1 where m: "m s = (r, s1)" by (cases "m s")
  from assms(1) m obtain evs1 where 1: "calls s1 = calls s @ evs1" "\<forall>ev \<in> set evs1. P (fst ev)"
    unfolding makes_def by (metis snd_conv)
  show "\<exists>evs. calls (snd (try_catch m h s)) = calls s @ evs \<and> (\<forall>ev \<in> set evs. P (fst ev))"
  proof (cases r)
    case (Inr x)
    with m 1 show ?thesis by (intro exI[of _ evs1]) (simp add: try_catch_def)
  next
    case (Inl e)
    from assms(2)[of e] obtain evs2 where
      2: "calls (snd (h e s1)) = calls s1 @ evs2" "\<forall>ev \<in> set evs2. P (fst ev)"
      unfolding makes_def by blast
    with m 1 Inl show ?thesis by (intro exI[of _ "evs1 @ evs2"]) (auto simp: try_catch_def)
  qed
qed

lemma makes_if: "makes P a \<Longrightarrow> makes P b \<Longrightarrow> makes P (if c then a else b)"
  by simp

lemma makes_perform_all: "\<forall>c \<in> set cs. P c \<Longrightarrow> makes P (perform_all ext cs)"
  by (induction ext cs rule: perform_all.induct)
     (simp_all add: makes_silent silent_ret makes_perform makes_then)

lemma makes_with_acct: "makes P m \<Longrightarrow> makes P (\<lambda>s. m (s\<lparr>acct := a\<rparr>))"
  unfolding makes_def
proof
  fix s :: "'a state"
  assume "\<forall>s. \<exists>evs. calls (snd (m s)) = calls s @ evs \<and> (\<forall>ev\<in>set evs. P (fst ev))"
  from this[rule_format, of "s\<lparr>acct := a\<rparr>"]
  show "\<exists>evs. calls (snd (m (s\<lparr>acct := a\<rparr>))) = calls s @ evs \<and> (\<forall>ev\<in>set evs. P (fst ev))"
    by simp
qed

lemma makes_for_each: "makes P body \<Longrightarrow> makes P (for_each body as)"
proof (induction as)
  case Nil
  then show ?case by (simp add: makes_silent silent_ret)
next
  case (Cons a as)
  have s: "silent (\<lambda>s :: 'a state. (Inr (acct s), s))" by (simp add: silent_def)
  show ?case
    unfolding for_each.simps
    by (intro makes_then makes_with_acct Cons makes_silent[OF s] makes_silent[OF silent_ret])
qed


lemma makesD:
  "makes P m \<Longrightarrow> m s = (r, s') \<Longrightarrow> \<exists>evs. calls s' = calls s @ evs \<and> (\<forall>ev \<in> set evs. P (fst ev))"
  unfolding makes_def by (metis snd_conv)

lemmas makes_intros =
  makes_then makes_try makes_if makes_perform makes_perform_all makes_for_each

section \<open>Fixed call sequences\<close>








section \<open>What a returned program has done\<close>

lemma then_doE:
  assumes "then_do m f s = (Inr v, s')"
  obtains x s1 where "m s = (Inr x, s1)" and "f x s1 = (Inr v, s')"
  using assms by (auto simp: then_do_def split: prod.splits sum.splits)

lemma performE:
  assumes "perform ext c s = (Inr v, s')"
  obtains "calls s' = calls s @ [(c, Inr v)]" and "acct s' = acct s" and "config s' = config s"
  using assms by (auto simp: perform_def split: prod.splits)

lemma retE:
  assumes "ret x s = (Inr v, s')"
  obtains "v = x" and "s' = s"
proof -
  from assms have "v = x" and "s' = s"
    by (simp_all add: ret_def eq_commute)
  then show thesis by (rule that)
qed

lemma liftE:
  assumes "lift r s = (Inr v, s')"
  obtains "r = Inr v" and "s' = s"
proof -
  from assms have "r = Inr v" and "s' = s"
    by (simp_all add: lift_def eq_commute)
  then show thesis by (rule that)
qed

lemma get_fieldE:
  assumes "get_field k s = (Inr v, s')"
  obtains "v = field (acct s) k" and "s' = s"
proof -
  from assms have "v = field (acct s) k" and "s' = s"
    by (simp_all add: get_field_def eq_commute)
  then show thesis by (rule that)
qed

lemma set_fieldE:
  assumes "set_field k x s = (Inr v, s')"
  obtains "calls s' = calls s" and "acct s' = AList.update k x (acct s)" and "config s' = config s"
  using assms by (auto simp: set_field_def)

lemma config_pathE:
  assumes "config_path ps s = (Inr v, s')"
  obtains "get_path (config s) ps = Inr v" and "s' = s"
proof -
  from assms have "get_path (config s) ps = Inr v" and "s' = s"
    by (simp_all add: config_path_def eq_commute)
  then show thesis by (rule that)
qed

lemma or_configE:
  assumes "(if c then ret a else config_path ps) s = (Inr v, s')"
  obtains "s' = s"
proof -
  from assms have "s' = s"
    by (simp add: config_path_def ret_def eq_commute split: if_splits)
  then show thesis by (rule that)
qed

lemmas returnsE = then_doE performE retE liftE get_fieldE set_fieldE config_pathE or_configE


lemma loginFlow_part0_Inr:
  assumes "loginFlow_part0 ext s = (Inr v, s')"
  shows "\<exists>evs. calls s' = calls s @ evs \<and> login_result ext (acct s) v (acct s') evs 2"
  using assms unfolding loginFlow_part0_def login_result_def logger_info_def
  apply (simp only: perform_all.simps then_do_assoc)
  apply (elim returnsE)
  apply (intro exI conjI)
  apply (simp only: append_assoc append.simps)
  apply (simp (no_asm))
  apply assumption
  apply assumption
  apply (simp only:)
  apply (simp (no_asm))
  apply assumption
  apply (simp (no_asm))
  apply assumption
  apply assumption
  apply assumption
  apply assumption
  apply (simp (no_asm))
  apply (simp (no_asm))
  apply (simp (no_asm))
  apply (simp (no_asm))
  apply (simp (no_asm))
  apply assumption
  done





section \<open>The two try statements of checkAccount\<close>

lemma indexOf_from_sublist: "0 \<le> indexOf_from i s pat \<longleftrightarrow> sublist pat s"
  by (induction s arbitrary: i) (auto simp: sublist_Cons_right)

lemma indexOf_sublist: "0 \<le> indexOf s pat \<longleftrightarrow> sublist pat s"
  by (simp add: indexOf_def indexOf_from_sublist)

lemma position_from_mem: "0 \<le> position_from i xs x \<longleftrightarrow> JStr x \<in> set xs"
  by (induction xs arbitrary: i) auto

lemma login_phase_Inl:
  "loginFlow ext s = (Inl e, s1) \<Longrightarrow> message e = Inr (JStr m) \<Longrightarrow>
     login_phase ext s =
       (Inr (), if sublist ''Status code 3'' m
                then s1\<lparr>acct := AList.update ''banned'' (JBool True) (acct s1)\<rparr> else s1)"
  by (simp add: login_phase_def try_catch_def then_do_def lift_def indexOf_sublist set_field_def ret_def)

lemma login_phase_Inl_array:
  "loginFlow ext s = (Inl e, s1) \<Longrightarrow> message e = Inr (JArr ms) \<Longrightarrow>
     login_phase ext s =
       (Inr (), if JStr ''Status code 3'' \<in> set ms
                then s1\<lparr>acct := AList.update ''banned'' (JBool True) (acct s1)\<rparr> else s1)"
  by (simp add: login_phase_def try_catch_def then_do_def lift_def position_from_mem set_field_def ret_def)

lemma login_phase_Inl_throws:
  assumes "loginFlow ext s = (Inl e, s1)"
    and "\<forall>m. message e \<noteq> Inr (JStr m)" and "\<forall>ms. message e \<noteq> Inr (JArr ms)"
  shows "\<exists>e2. login_phase ext s = (Inl e2, s1)"
proof (cases "message e")
  case (Inl e2)
  with assms(1) show ?thesis
    by (simp add: login_phase_def try_catch_def then_do_def lift_def)
next
  case (Inr v)
  with assms(2,3) have "\<exists>e2. indexOf_js ''e.message'' v ''Status code 3'' = Inl e2"
    by (cases v) simp_all
  with assms(1) Inr show ?thesis
    by (auto simp: login_phase_def try_catch_def then_do_def lift_def)
qed

lemma login_phase_Inr:
  "loginFlow ext s = (Inr v, s1) \<Longrightarrow> login_phase ext s = (Inr (), s1)"
  by (simp add: login_phase_def try_catch_def then_do_def ret_def)

lemma checkAccount_continues:
  assumes "new_client ext s0 = (Inr client, s)" and "login_phase ext s = (Inr (), s2)"
  shows "checkAccount ext s0 = then_do (store_phase ext) (\<lambda>_. report_log ext) s2"
  using assms by (simp add: checkAccount_def then_do_def)

lemma checkAccount_stops:
  assumes "new_client ext s0 = (Inr client, s)" and "login_phase ext s = (Inl e, s2)"
  shows "checkAccount ext s0 = (Inl e, s2)"
  using assms by (simp add: checkAccount_def then_do_def)

lemma handler_silent:
  "calls (snd ((then_do (set_field ''store'' (JBool False)) (\<lambda>_. set_field ''iap'' (JBool False))) s)) = calls s"
  by (simp add: then_do_def set_field_def)

lemma makes_store_rest:
  "makes (\<lambda>c. True)
     (then_do (perform_all ext cs) (\<lambda>response.
      then_do (set_field ''store'' (JBool True)) (\<lambda>_.
      then_do (lift (get_prop response ''items'')) (\<lambda>items.
      then_do (lift (some_js is_iap (elements_of items))) (\<lambda>some.
      set_field ''iap'' (JBool some))))))"
  by (intro makes_intros makes_silent silent_intros) simp_all

lemma makes_report_log: "makes (\<lambda>c. True) (report_log ext)"
  unfolding report_log_def logger_info_def
  by (intro makes_intros makes_silent silent_intros) simp_all

lemma store_phase_first_call:
  "\<exists>r evs. calls (snd (then_do (store_phase ext) (\<lambda>_. report_log ext) s)) =
      calls s @ ((''client.batchStart'', []), r) # evs"
proof -
  let ?c = "(''client.batchStart'', [])"
  let ?h = "\<lambda>e. then_do (set_field ''store'' (JBool False)) (\<lambda>_. set_field ''iap'' (JBool False))"
  obtain r w where l: "lib ext (world s) ?c = (r, w)" by (cases "lib ext (world s) ?c")
  define s1 where "s1 = s\<lparr>world := w, calls := calls s @ [(?c, r)]\<rparr>"
  have p: "perform ext ?c s = (r, s1)" by (simp add: perform_def l s1_def)
  have c1: "calls s1 = calls s @ [(?c, r)]" by (simp add: s1_def)
  have m: "makes (\<lambda>c. True) (then_do (store_phase ext) (\<lambda>_. report_log ext))"
    unfolding store_phase_def store_try_def
    by (intro makes_intros makes_store_rest makes_report_log makes_silent silent_intros) simp_all
  let ?rest = "then_do (perform_all ext (tl store_request)) (\<lambda>response.
      then_do (set_field ''store'' (JBool True)) (\<lambda>_.
      then_do (lift (get_prop response ''items'')) (\<lambda>items.
      then_do (lift (some_js is_iap (elements_of items))) (\<lambda>some.
      set_field ''iap'' (JBool some)))))"
  have st: "store_try ext = then_do (perform ext ?c) (\<lambda>_. ?rest)"
    by (simp add: store_try_def store_request_def then_do_assoc)
  have mr: "makes (\<lambda>c. True) (then_do (try_catch ?rest ?h) (\<lambda>_. report_log ext))"
    by (intro makes_intros makes_store_rest makes_report_log makes_silent silent_intros) simp_all
  have mh: "makes (\<lambda>c. True) (then_do (?h e) (\<lambda>_. report_log ext))" for e
    by (intro makes_intros makes_report_log makes_silent silent_intros)
  show ?thesis
  proof (cases r)
    case (Inl e)
    with p st have "then_do (store_phase ext) (\<lambda>_. report_log ext) s =
        then_do (?h e) (\<lambda>_. report_log ext) s1"
      by (simp add: store_phase_def try_catch_def then_do_def)
    moreover from mh obtain evs where "calls (snd (then_do (?h e) (\<lambda>_. report_log ext) s1)) = calls s1 @ evs"
      unfolding makes_def by blast
    ultimately show ?thesis using c1 by auto
  next
    case (Inr x)
    with p st have "then_do (store_phase ext) (\<lambda>_. report_log ext) s =
        then_do (try_catch ?rest ?h) (\<lambda>_. report_log ext) s1"
      by (simp add: store_phase_def try_catch_def then_do_def split: prod.splits sum.splits)
    moreover from mr obtain evs where
      "calls (snd (then_do (try_catch ?rest ?h) (\<lambda>_. report_log ext) s1)) = calls s1 @ evs"
      unfolding makes_def by blast
    ultimately show ?thesis using c1 by auto
  qed
qed

lemma checkAccount_part0_propagates:
  assumes "new_client_part0 ext t0 = (Inr client, t)" and "loginFlow_part0 ext t = (Inl e, t1)"
  shows "checkAccount_part0 ext t0 = (Inl e, t1)"
  using assms by (simp add: checkAccount_part0_def then_do_def)

lemma login_recovered:
  assumes "new_client ext s0 = (Inr client, s)" and "login_phase ext s = (Inr (), s2)"
  shows "checkAccount ext s0 = then_do (store_phase ext) (\<lambda>_. report_log ext) s2 \<and>
         (\<exists>r evs. calls (snd (checkAccount ext s0)) = calls s2 @ ((''client.batchStart'', []), r) # evs)"
  using checkAccount_continues[OF assms] store_phase_first_call[of ext s2] by simp

text \<open>
  C3, as amended. In \<open>index.js\<close>, when \<open>loginFlow\<close> throws, the handler of the first
  \<open>try\<close> statement of \<open>checkAccount\<close> reads \<open>e.message.indexOf('Status code 3')\<close>.
  Where the message is a string (an error object, or any other value with such a property)
  the statement returns, with \<open>banned\<close> set to \<open>true\<close> if the message contains
  \<open>Status code 3\<close> and with the account as \<open>loginFlow\<close> left it otherwise, and
  \<open>checkAccount\<close> goes on with the store request from there; likewise where the message is
  an array, \<open>banned\<close> being set if one of its elements is that string. For every other
  thrown value (a string, \<open>undefined\<close>, an object without a message) the handler itself
  throws a TypeError: \<open>checkAccount\<close> ends with it where \<open>loginFlow\<close> stopped, the
  account is not marked and no store request is made. In the other file there is no
  recovery: the error leaves \<open>checkAccount\<close> and no store request is made.
\<close>

theorem login_error_recovery:
  assumes "new_client ext s0 = (Inr client, s)" and "loginFlow ext s = (Inl e, s1)"
    and "new_client_part0 ext t0 = (Inr client', t)" and "loginFlow_part0 ext t = (Inl e', t1)"
  shows "(\<forall>m. e = Error m \<or> (\<exists>v. e = Thrown v \<and> get_prop v ''message'' = Inr (JStr m)) \<longrightarrow>
            login_phase ext s =
              (Inr (), if sublist ''Status code 3'' m
                       then s1\<lparr>acct := AList.update ''banned'' (JBool True) (acct s1)\<rparr> else s1) \<and>
            checkAccount ext s0 =
              then_do (store_phase ext) (\<lambda>_. report_log ext) (snd (login_phase ext s)) \<and>
            (\<exists>r evs. calls (snd (checkAccount ext s0)) =
               calls s1 @ ((''client.batchStart'', []), r) # evs)) \<and>
         (\<forall>v ms. e = Thrown v \<and> get_prop v ''message'' = Inr (JArr ms) \<longrightarrow>
            login_phase ext s =
              (Inr (), if JStr ''Status code 3'' \<in> set ms
                       then s1\<lparr>acct := AList.update ''banned'' (JBool True) (acct s1)\<rparr> else s1) \<and>
            checkAccount ext s0 =
              then_do (store_phase ext) (\<lambda>_. report_log ext) (snd (login_phase ext s)) \<and>
            (\<exists>r evs. calls (snd (checkAccount ext s0)) =
               calls s1 @ ((''client.batchStart'', []), r) # evs)) \<and>
         (\<forall>v. e = Thrown v \<and> (\<forall>m. get_prop v ''message'' \<noteq> Inr (JStr m)) \<and>
               (\<forall>ms. get_prop v ''message'' \<noteq> Inr (JArr ms)) \<longrightarrow>
            (\<exists>e2. login_phase ext s = (Inl e2, s1) \<and> checkAccount ext s0 = (Inl e2, s1))) \<and>
         checkAccount_part0 ext t0 = (Inl e', t1)"
proof (intro conjI allI impI)
  fix m
  assume "e = Error m \<or> (\<exists>v. e = Thrown v \<and> get_prop v ''message'' = Inr (JStr m))"
  then have "message e = Inr (JStr m)" by auto
  from login_phase_Inl[OF assms(2) this]
  have lp: "login_phase ext s =
      (Inr (), if sublist ''Status code 3'' m
               then s1\<lparr>acct := AList.update ''banned'' (JBool True) (acct s1)\<rparr> else s1)" .
  then show "login_phase ext s =
      (Inr (), if sublist ''Status code 3'' m
               then s1\<lparr>acct := AList.update ''banned'' (JBool True) (acct s1)\<rparr> else s1)" .
  from lp have lp': "login_phase ext s = (Inr (), snd (login_phase ext s))"
    and c: "calls (snd (login_phase ext s)) = calls s1" by simp_all
  note rec = login_recovered[OF assms(1) lp']
  from rec show "checkAccount ext s0 =
      then_do (store_phase ext) (\<lambda>_. report_log ext) (snd (login_phase ext s))"
    by (rule conjunct1)
  from rec[THEN conjunct2] show "\<exists>r evs. calls (snd (checkAccount ext s0)) =
      calls s1 @ ((''client.batchStart'', []), r) # evs"
    by (simp only: c)
next
  fix v ms
  assume "e = Thrown v \<and> get_prop v ''message'' = Inr (JArr ms)"
  then have "message e = Inr (JArr ms)" by auto
  from login_phase_Inl_array[OF assms(2) this]
  have lp: "login_phase ext s =
      (Inr (), if JStr ''Status code 3'' \<in> set ms
               then s1\<lparr>acct := AList.update ''banned'' (JBool True) (acct s1)\<rparr> else s1)" .
  then show "login_phase ext s =
      (Inr (), if JStr ''Status code 3'' \<in> set ms
               then s1\<lparr>acct := AList.update ''banned'' (JBool True) (acct s1)\<rparr> else s1)" .
  from lp have lp': "login_phase ext s = (Inr (), snd (login_phase ext s))"
    and c: "calls (snd (login_phase ext s)) = calls s1" by simp_all
  note rec = login_recovered[OF assms(1) lp']
  from rec show "checkAccount ext s0 =
      then_do (store_phase ext) (\<lambda>_. report_log ext) (snd (login_phase ext s))"
    by (rule conjunct1)
  from rec[THEN conjunct2] show "\<exists>r evs. calls (snd (checkAccount ext s0)) =
      calls s1 @ ((''client.batchStart'', []), r) # evs"
    by (simp only: c)
next
  fix v
  assume a: "e = Thrown v \<and> (\<forall>m. get_prop v ''message'' \<noteq> Inr (JStr m)) \<and>
               (\<forall>ms. get_prop v ''message'' \<noteq> Inr (JArr ms))"
  then have "\<forall>m. message e \<noteq> Inr (JStr m)" and "\<forall>ms. message e \<noteq> Inr (JArr ms)" by auto
  from login_phase_Inl_throws[OF assms(2) this] obtain e2 where
    lp: "login_phase ext s = (Inl e2, s1)" by blast
  from lp checkAccount_stops[OF assms(1) lp]
  show "\<exists>e2. login_phase ext s = (Inl e2, s1) \<and> checkAccount ext s0 = (Inl e2, s1)" by blast
next
  from checkAccount_part0_propagates[OF assms(3,4)]
  show "checkAccount_part0 ext t0 = (Inl e', t1)" .
qed

text \<open>
  Against C3 as stated of both files: in the other file, a login refused with
  \<open>Status code 3\<close> ends \<open>checkAccount\<close> with that error; \<open>banned\<close> is not set and the
  store request is not made.
\<close>

theorem checkAccount_part0_aborts:
  "fst (checkAccount_part0 (script_ext []) (start demo_config ash (good_client @ refused_login))) =
     Inl (Error ''Status code 3 received from RPC'') \<and>
   field (acct (snd (checkAccount_part0 (script_ext [])
     (start demo_config ash (good_client @ refused_login))))) ''banned'' = JUndefined \<and>
   call_names (calls (snd (checkAccount_part0 (script_ext [])
     (start demo_config ash (good_client @ refused_login))))) =
     [''logger.info'', ''_.times'', ''new pogobuf.Client'',
      ''_.random'', ''client.setPosition'', ''client.init'']"
  by code_simp

theorem login_error_recovery_witness:
  "field (acct (snd (login_phase (script_ext [])
      (snd (new_client (script_ext []) (start demo_config ash (good_client @ refused_login @ good_store)))))))
      ''banned'' = JBool True \<and>
   fst (checkAccount (script_ext []) (start demo_config ash (good_client @ refused_login @ good_store)))
     = Inr () \<and>
   field (acct (snd (checkAccount (script_ext [])
      (start demo_config ash (good_client @ refused_login @ good_store))))) ''store'' = JBool True \<and>
   fst (checkAccount (script_ext []) (start demo_config ash (good_client @ rejected_login @ good_store)))
     = Inl (Error (''Cannot read property '' @ [CHR 0x27] @ ''indexOf'' @ [CHR 0x27] @ '' of undefined'')) \<and>
   call_names (calls (snd (checkAccount (script_ext [])
      (start demo_config ash (good_client @ rejected_login @ good_store))))) =
     [''logger.info'', ''_.times'', ''new pogobuf.Client'',
      ''_.random'', ''client.setPosition'', ''client.init''] \<and>
   field (acct (snd (checkAccount (script_ext [])
      (start demo_config ash (good_client @ rejected_login @ good_store))))) ''banned'' = JUndefined \<and>
   fst (checkAccount_part0 (script_ext []) (start demo_config ash (good_client @ refused_login)))
     = Inl (Error ''Status code 3 received from RPC'')"
proof -
  let ?E = "script_ext [] :: (error + jsval) list externals"
  let ?init = "start demo_config ash (good_client @ refused_login @ good_store)"
  let ?lost = "start demo_config ash (good_client @ rejected_login @ good_store)"
  let ?other = "start demo_config ash (good_client @ refused_login)"
  let ?e = "Error ''Status code 3 received from RPC''"
  let ?x = "Thrown (JStr ''socket hang up'')"
  have "fst (new_client ?E ?init) = Inr (JObj [])" by code_simp
  then have n: "new_client ?E ?init = (Inr (JObj []), snd (new_client ?E ?init))"
    by (intro prod_eqI) simp_all
  have "fst (loginFlow ?E (snd (new_client ?E ?init))) = Inl ?e" by code_simp
  then have l: "loginFlow ?E (snd (new_client ?E ?init)) =
      (Inl ?e, snd (loginFlow ?E (snd (new_client ?E ?init))))"
    by (intro prod_eqI) simp_all
  have "fst (new_client ?E ?lost) = Inr (JObj [])" by code_simp
  then have n': "new_client ?E ?lost = (Inr (JObj []), snd (new_client ?E ?lost))"
    by (intro prod_eqI) simp_all
  have "fst (loginFlow ?E (snd (new_client ?E ?lost))) = Inl ?x" by code_simp
  then have l': "loginFlow ?E (snd (new_client ?E ?lost)) =
      (Inl ?x, snd (loginFlow ?E (snd (new_client ?E ?lost))))"
    by (intro prod_eqI) simp_all
  have "fst (new_client_part0 ?E ?other) = Inr (JObj [])" by code_simp
  then have n0: "new_client_part0 ?E ?other = (Inr (JObj []), snd (new_client_part0 ?E ?other))"
    by (intro prod_eqI) simp_all
  have "fst (loginFlow_part0 ?E (snd (new_client_part0 ?E ?other))) = Inl ?e" by code_simp
  then have l0: "loginFlow_part0 ?E (snd (new_client_part0 ?E ?other)) =
      (Inl ?e, snd (loginFlow_part0 ?E (snd (new_client_part0 ?E ?other))))"
    by (intro prod_eqI) simp_all
  have sub: "sublist ''Status code 3'' ''Status code 3 received from RPC''" by code_simp
  from login_error_recovery[OF n l n0 l0] sub
  have 1: "field (acct (snd (login_phase ?E (snd (new_client ?E ?init))))) ''banned'' = JBool True"
    and 7: "fst (checkAccount_part0 ?E ?other) = Inl ?e"
    by (simp_all add: field_def update_conv')
  from login_error_recovery[OF n' l' n0 l0]
  have "\<exists>e2. checkAccount ?E ?lost = (Inl e2, snd (loginFlow ?E (snd (new_client ?E ?lost))))"
    by auto
  then have "calls (snd (checkAccount ?E ?lost)) = calls (snd (loginFlow ?E (snd (new_client ?E ?lost))))"
    and "acct (snd (checkAccount ?E ?lost)) = acct (snd (loginFlow ?E (snd (new_client ?E ?lost))))"
    by auto
  moreover have "call_names (calls (snd (loginFlow ?E (snd (new_client ?E ?lost))))) =
     [''logger.info'', ''_.times'', ''new pogobuf.Client'',
      ''_.random'', ''client.setPosition'', ''client.init'']" by code_simp
  moreover have "field (acct (snd (loginFlow ?E (snd (new_client ?E ?lost))))) ''banned'' = JUndefined"
    by code_simp
  ultimately have 5: "call_names (calls (snd (checkAccount ?E ?lost))) =
     [''logger.info'', ''_.times'', ''new pogobuf.Client'',
      ''_.random'', ''client.setPosition'', ''client.init'']"
    and 6: "field (acct (snd (checkAccount ?E ?lost))) ''banned'' = JUndefined" by simp_all
  have 2: "fst (checkAccount ?E ?init) = Inr ()" by code_simp
  have 3: "field (acct (snd (checkAccount ?E ?init))) ''store'' = JBool True" by code_simp
  have 4: "fst (checkAccount ?E ?lost) = Inl (Error (''Cannot read property '' @ [CHR 0x27] @ ''indexOf'' @ [CHR 0x27] @ '' of undefined''))"
    by code_simp
  from 1 2 3 4 5 6 7 show ?thesis by simp
qed

section \<open>The store flags\<close>

lemma perform_all_keeps:
  "perform_all ext cs s = (r, s') \<Longrightarrow> acct s' = acct s \<and> config s' = config s"
proof (induction ext cs arbitrary: s rule: perform_all.induct)
  case (1 ext)
  then show ?case by (simp add: ret_def)
next
  case (2 ext c)
  then show ?case by (auto simp: perform_def split: prod.splits)
next
  case (3 ext c d cs)
  obtain r1 s1 where p: "perform ext c s = (r1, s1)" by (cases "perform ext c s")
  then have k: "acct s1 = acct s \<and> config s1 = config s"
    by (auto simp: perform_def split: prod.splits)
  show ?case
  proof (cases r1)
    case (Inl e)
    with p "3.prems" k show ?thesis by (simp add: then_do_def)
  next
    case (Inr x)
    with p "3.prems" have "perform_all ext (d # cs) s1 = (r, s')" by (simp add: then_do_def)
    from "3.IH"[OF this] k show ?thesis by simp
  qed
qed

lemma some_js_Inr: "some_js p xs = Inr b \<Longrightarrow> b = (\<exists>x\<in>set xs. p x = Inr True)"
  by (induction xs) (auto split: sum.splits if_splits)

lemma store_try_Inr:
  assumes "store_try ext s = (Inr u, s1)"
  shows "\<exists>response items s2. perform_all ext store_request s = (Inr response, s2) \<and>
           get_prop response ''items'' = Inr items \<and>
           acct s1 = AList.update ''iap'' (JBool (\<exists>item\<in>set (elements_of items). is_iap item = Inr True))
                       (AList.update ''store'' (JBool True) (acct s))"
  using assms unfolding store_try_def
  apply (elim returnsE)
  apply (frule perform_all_keeps)
  apply (drule some_js_Inr)
  apply auto
  done

lemma store_try_part0_Inr:
  assumes "store_try_part0 ext s = (Inr u, s1)"
  shows "\<exists>response items s2. perform_all ext store_request s = (Inr response, s2) \<and>
           get_prop response ''items'' = Inr items \<and>
           acct s1 = AList.update ''iap'' (JBool (\<exists>item\<in>set (elements_of items). is_iap item = Inr True))
                       (AList.update ''store'' (JBool True) (acct s))"
  using assms unfolding store_try_part0_def
  apply (elim returnsE)
  apply (frule perform_all_keeps)
  apply (drule some_js_Inr)
  apply auto
  done

lemma store_phase_of_try:
  "store_phase ext s =
     (case store_try ext s of
        (Inl e, s1) \<Rightarrow> (Inr (), s1\<lparr>acct := AList.update ''iap'' (JBool False)
                                        (AList.update ''store'' (JBool False) (acct s1))\<rparr>)
      | (Inr u, s1) \<Rightarrow> (Inr (), s1))"
  by (simp add: store_phase_def try_catch_def then_do_def set_field_def split: prod.splits sum.splits)

lemma store_phase_part0_of_try:
  "store_phase_part0 ext s =
     (case store_try_part0 ext s of
        (Inl e, s1) \<Rightarrow> (Inr (), s1\<lparr>acct := AList.update ''iap'' (JBool False)
                                        (AList.update ''store'' (JBool False) (acct s1))\<rparr>)
      | (Inr u, s1) \<Rightarrow> (Inr (), s1))"
  by (simp add: store_phase_part0_def try_catch_def then_do_def set_field_def split: prod.splits sum.splits)




section \<open>A login that fails without a ban\<close>

lemma loginFlow_decomp:
  "loginFlow ext =
     then_do (login_head ext) (\<lambda>response.
     then_do (lift (get_prop response ''warn'')) (\<lambda>warn.
     then_do (set_field ''warn'' warn) (\<lambda>_.
     then_do (lift (get_prop response ''banned'')) (\<lambda>banned.
     then_do (set_field ''banned'' banned) (\<lambda>_.
     login_rest ext)))))"
  by (simp only: loginFlow_def login_head_def login_rest_def then_do_assoc)

lemma writes_only_login_head: "writes_only {} (login_head ext)"
  unfolding login_head_def by (intro writes_only_intros)

lemma writes_only_login_rest: "writes_only {} (login_rest ext)"
  unfolding login_rest_def by (intro writes_only_intros)

lemma writes_nothingD: "writes_only {} m \<Longrightarrow> map_of (acct (snd (m s))) = map_of (acct s)"
  by (auto simp: writes_only_def)

lemma makes_login_rest: "makes (\<lambda>c. True) (login_rest ext)"
  unfolding login_rest_def
  by (intro makes_intros makes_silent silent_intros) simp_all

lemma login_head_Inr:
  assumes "login_head ext s = (Inr response, s1)"
  shows "\<exists>evs. calls s1 = calls s @ evs \<and> length evs = 8 \<and>
           evs ! 7 = ((''client.batchCall'', []), Inr response)"
  using assms unfolding login_head_def
  apply (simp only: perform_all.simps then_do_assoc)
  apply (elim returnsE)
  apply (intro exI conjI)
  apply (simp only: append_assoc append.simps)
  apply (simp (no_asm))
  apply (simp (no_asm))
  done

lemma get_prop_defined: "get_prop v p = Inr x \<Longrightarrow> \<exists>y. get_prop v q = Inr y"
  by (cases v) simp_all

lemma field_cong: "map_of a = map_of b \<Longrightarrow> field a k = field b k"
  by (simp add: field_def)

lemma loginFlow_Inl_cases:
  assumes "loginFlow ext s = (Inl e, s1)"
  shows "map_of (acct s1) = map_of (acct s) \<or>
         (\<exists>evs player w b. calls s1 = calls s @ evs \<and> 8 \<le> length evs \<and>
            evs ! 7 = ((''client.batchCall'', []), Inr player) \<and>
            get_prop player ''warn'' = Inr w \<and> get_prop player ''banned'' = Inr b \<and>
            map_of (acct s1) = map_of (AList.update ''banned'' b (AList.update ''warn'' w (acct s))))"
proof -
  obtain rh sh where h: "login_head ext s = (rh, sh)" by (cases "login_head ext s")
  from writes_nothingD[OF writes_only_login_head, of ext s] h
  have ah: "map_of (acct sh) = map_of (acct s)" by simp
  show ?thesis
  proof (cases rh)
    case (Inl e')
    with h assms have "s1 = sh" by (simp add: loginFlow_decomp then_do_def)
    with ah show ?thesis by simp
  next
    case (Inr response)
    from login_head_Inr[OF h[unfolded Inr]] obtain evs8 where e8:
      "calls sh = calls s @ evs8" "length evs8 = 8"
      "evs8 ! 7 = ((''client.batchCall'', []), Inr response)" by blast
    show ?thesis
    proof (cases "get_prop response ''warn''")
      case (Inl e')
      with h Inr assms have "s1 = sh" by (simp add: loginFlow_decomp then_do_def lift_def)
      with ah show ?thesis by simp
    next
      case w: (Inr w)
      from get_prop_defined[OF w] obtain b where b: "get_prop response ''banned'' = Inr b" by blast
      define sa where "sa = sh\<lparr>acct := AList.update ''banned'' b (AList.update ''warn'' w (acct sh))\<rparr>"
      from h Inr w b assms have r: "login_rest ext sa = (Inl e, s1)"
        by (simp add: loginFlow_decomp then_do_def lift_def set_field_def sa_def)
      from writes_nothingD[OF writes_only_login_rest, of ext sa] r
      have "map_of (acct s1) = map_of (acct sa)" by simp
      moreover have "map_of (acct sa) = map_of (AList.update ''banned'' b (AList.update ''warn'' w (acct s)))"
        using ah by (simp add: sa_def update_conv')
      moreover from makesD[OF makes_login_rest r] obtain evs where "calls s1 = calls sa @ evs" by blast
      then have "calls s1 = calls s @ (evs8 @ evs)" using e8 by (simp add: sa_def)
      moreover have "(evs8 @ evs) ! 7 = ((''client.batchCall'', []), Inr response)"
        using e8 by (simp add: nth_append)
      moreover have "8 \<le> length (evs8 @ evs)" using e8 by simp
      ultimately have "\<exists>evs player w b. calls s1 = calls s @ evs \<and> 8 \<le> length evs \<and>
            evs ! 7 = ((''client.batchCall'', []), Inr player) \<and>
            get_prop player ''warn'' = Inr w \<and> get_prop player ''banned'' = Inr b \<and>
            map_of (acct s1) = map_of (AList.update ''banned'' b (AList.update ''warn'' w (acct s)))"
        using w b
        by (intro exI[of _ "evs8 @ evs"] exI[of _ response] exI[of _ w] exI[of _ b]) simp
      then show ?thesis ..
    qed
  qed
qed

lemma writes_only_after_login:
  "writes_only {''store'', ''iap''} (then_do (store_phase ext) (\<lambda>_. report_log ext))"
  by (intro writes_only_then writes_only_store_phase writes_only_mono[OF writes_only_report_log]) simp

lemma saveToFile_calls:
  "map fst (calls (snd (saveToFile ext accounts filename s))) =
     map fst (calls s) @
     [(''fs.writeFile'',
       [Val (JStr filename),
        Val (JStr (''username,banned,warn,store,iap'' @ [LF] @
               concat (map (\<lambda>account.
                 to_string (field account ''username'') @ '','' @
                 to_string (field account ''banned'') @ '','' @
                 to_string (field account ''warn'') @ '','' @
                 to_string (field account ''store'') @ '','' @
                 to_string (field account ''iap'') @ [LF]) accounts))),
        Val (JStr ''utf8'')])]"
  by (simp add: saveToFile_def then_do_def perform_def ret_def
      foldl_append_concat split: prod.splits sum.splits)

text \<open>
  C8, as amended (\<open>index.js\<close>). When \<open>loginFlow\<close> throws an error whose message does not
  contain \<open>Status code 3\<close>, the handler sets neither \<open>warn\<close> nor \<open>banned\<close>: after
  \<open>checkAccount\<close> they are what \<open>loginFlow\<close> left. That is what they were before if it
  threw before the answer to the getPlayer batch (fewer than eight calls made), and else
  either that or the \<open>warn\<close> and \<open>banned\<close> of that answer. Where they are unchanged and the
  record had neither, the row \<open>saveToFile\<close> writes shows \<open>undefined\<close> in both columns.
\<close>

theorem unmarked_login_failure:
  assumes "new_client ext s0 = (Inr client, s)" and "loginFlow ext s = (Inl e, s1)"
    and "message e = Inr (JStr m)" and "\<not> sublist ''Status code 3'' m"
  shows "field (acct (snd (checkAccount ext s0))) ''warn'' = field (acct s1) ''warn'' \<and>
         field (acct (snd (checkAccount ext s0))) ''banned'' = field (acct s1) ''banned'' \<and>
         (map_of (acct s1) = map_of (acct s0) \<or>
          (\<exists>evs player. calls s1 = calls s @ evs \<and> 8 \<le> length evs \<and>
             evs ! 7 = ((''client.batchCall'', []), Inr player) \<and>
             get_prop player ''warn'' = Inr (field (acct s1) ''warn'') \<and>
             get_prop player ''banned'' = Inr (field (acct s1) ''banned''))) \<and>
         (length (calls s1) < length (calls s) + 8 \<longrightarrow> map_of (acct s1) = map_of (acct s0)) \<and>
         (map_of (acct s1) = map_of (acct s0) \<and>
          field (acct s0) ''warn'' = JUndefined \<and> field (acct s0) ''banned'' = JUndefined \<longrightarrow>
            map fst (calls (snd (saveToFile ext [acct (snd (checkAccount ext s0))] filename t))) =
              map fst (calls t) @
              [(''fs.writeFile'',
                [Val (JStr filename),
                 Val (JStr (''username,banned,warn,store,iap'' @ [LF] @
                   to_string (field (acct s0) ''username'') @ '',undefined,undefined,'' @
                   to_string (field (acct (snd (checkAccount ext s0))) ''store'') @ '','' @
                   to_string (field (acct (snd (checkAccount ext s0))) ''iap'') @ [LF])),
                 Val (JStr ''utf8'')])])"
proof -
  let ?a = "acct (snd (checkAccount ext s0))"
  from writes_nothingD[OF writes_only_new_client, of ext s0] assms(1)
  have a0: "map_of (acct s) = map_of (acct s0)" by simp
  from login_phase_Inl[OF assms(2,3)] assms(4) have lp: "login_phase ext s = (Inr (), s1)" by simp
  from checkAccount_continues[OF assms(1) lp]
  have ca: "checkAccount ext s0 = then_do (store_phase ext) (\<lambda>_. report_log ext) s1" .
  have keep: "map_of ?a k = map_of (acct s1) k" if "k \<notin> {''store'', ''iap''}" for k
    using writes_only_after_login[of ext] that unfolding writes_only_def ca by blast
  have w: "field ?a ''warn'' = field (acct s1) ''warn''"
    and b: "field ?a ''banned'' = field (acct s1) ''banned''"
    and u: "field ?a ''username'' = field (acct s1) ''username''"
    using keep[of "''warn''"] keep[of "''banned''"] keep[of "''username''"]
    by (simp_all add: field_def)
  from loginFlow_Inl_cases[OF assms(2)]
  have d: "map_of (acct s1) = map_of (acct s0) \<or>
          (\<exists>evs player. calls s1 = calls s @ evs \<and> 8 \<le> length evs \<and>
             evs ! 7 = ((''client.batchCall'', []), Inr player) \<and>
             get_prop player ''warn'' = Inr (field (acct s1) ''warn'') \<and>
             get_prop player ''banned'' = Inr (field (acct s1) ''banned''))"
  proof
    assume "map_of (acct s1) = map_of (acct s)"
    with a0 show ?thesis by simp
  next
    assume "\<exists>evs player w b. calls s1 = calls s @ evs \<and> 8 \<le> length evs \<and>
            evs ! 7 = ((''client.batchCall'', []), Inr player) \<and>
            get_prop player ''warn'' = Inr w \<and> get_prop player ''banned'' = Inr b \<and>
            map_of (acct s1) = map_of (AList.update ''banned'' b (AList.update ''warn'' w (acct s)))"
    then obtain evs player w b where x: "calls s1 = calls s @ evs" "8 \<le> length evs"
      "evs ! 7 = ((''client.batchCall'', []), Inr player)"
      "get_prop player ''warn'' = Inr w" "get_prop player ''banned'' = Inr b"
      "map_of (acct s1) = map_of (AList.update ''banned'' b (AList.update ''warn'' w (acct s)))"
      by blast
    from x(6) have "field (acct s1) ''warn'' = w" "field (acct s1) ''banned'' = b"
      by (simp_all add: field_def update_conv')
    with x show ?thesis by blast
  qed
  have l: "map_of (acct s1) = map_of (acct s0)" if "length (calls s1) < length (calls s) + 8"
    using d that by auto
  have row: "map fst (calls (snd (saveToFile ext [?a] filename t))) =
              map fst (calls t) @
              [(''fs.writeFile'',
                [Val (JStr filename),
                 Val (JStr (''username,banned,warn,store,iap'' @ [LF] @
                   to_string (field (acct s0) ''username'') @ '',undefined,undefined,'' @
                   to_string (field ?a ''store'') @ '','' @
                   to_string (field ?a ''iap'') @ [LF])),
                 Val (JStr ''utf8'')])]"
    if "map_of (acct s1) = map_of (acct s0)" "field (acct s0) ''warn'' = JUndefined"
      "field (acct s0) ''banned'' = JUndefined"
  proof -
    from that w b u have "field ?a ''warn'' = JUndefined" "field ?a ''banned'' = JUndefined"
      "field ?a ''username'' = field (acct s0) ''username''"
      by (simp_all add: field_def)
    then show ?thesis by (simp add: saveToFile_calls)
  qed
  from w b d l row show ?thesis by blast
qed

text \<open>
  Against C8 as stated: the connection is lost after the getPlayer answer. \<open>loginFlow\<close>
  throws an error without \<open>Status code 3\<close>, \<open>checkAccount\<close> completes, and the row shows
  \<open>false\<close>, not \<open>undefined\<close>, in the \<open>banned\<close> and \<open>warn\<close> columns.
\<close>

theorem late_login_failure:
  "fst (loginFlow (script_ext [])
         (snd (new_client (script_ext [])
           (start demo_config ash (good_client @ late_timeout @ good_store @ quiet 4))))) =
     Inl (Error ''ETIMEDOUT'') \<and>
   \<not> sublist ''Status code 3'' ''ETIMEDOUT'' \<and>
   fst (checkAccount (script_ext [])
         (start demo_config ash (good_client @ late_timeout @ good_store @ quiet 4))) = Inr () \<and>
   field (acct (snd (checkAccount (script_ext [])
         (start demo_config ash (good_client @ late_timeout @ good_store @ quiet 4))))) ''warn'' =
     JBool False \<and>
   field (acct (snd (checkAccount (script_ext [])
         (start demo_config ash (good_client @ late_timeout @ good_store @ quiet 4))))) ''banned'' =
     JBool False \<and>
   map fst (calls (snd (saveToFile (script_ext [])
         [acct (snd (checkAccount (script_ext [])
            (start demo_config ash (good_client @ late_timeout @ good_store @ quiet 4))))]
         ''output.csv'' (start demo_config [] [])))) =
     [(''fs.writeFile'',
       [Val (JStr ''output.csv''),
        Val (JStr (''username,banned,warn,store,iap'' @ [LF] @ ''ash,false,false,true,true'' @ [LF])),
        Val (JStr ''utf8'')])]"
  by code_simp

theorem unmarked_login_failure_witness:
  "fst (loginFlow (script_ext [])
         (snd (new_client (script_ext [])
           (start demo_config ash (good_client @ early_timeout @ good_store @ quiet 4))))) =
     Inl (Error ''ETIMEDOUT'') \<and>
   map fst (calls (snd (saveToFile (script_ext [])
         [acct (snd (checkAccount (script_ext [])
            (start demo_config ash (good_client @ early_timeout @ good_store @ quiet 4))))]
         ''output.csv'' (start demo_config [] [])))) =
     [(''fs.writeFile'',
       [Val (JStr ''output.csv''),
        Val (JStr (''username,banned,warn,store,iap'' @ [LF] @
                   ''ash,undefined,undefined,true,true'' @ [LF])),
        Val (JStr ''utf8'')])]"
proof -
  let ?E = "script_ext [] :: (error + jsval) list externals"
  let ?init = "start demo_config ash (good_client @ early_timeout @ good_store @ quiet 4)"
  let ?S = "snd (new_client ?E ?init)"
  let ?e = "Error ''ETIMEDOUT''"
  let ?a = "acct (snd (checkAccount ?E ?init))"
  have "fst (new_client ?E ?init) = Inr (JObj [])" by code_simp
  then have n: "new_client ?E ?init = (Inr (JObj []), ?S)" by (metis prod.collapse)
  have fl: "fst (loginFlow ?E ?S) = Inl ?e" by code_simp
  then have l: "loginFlow ?E ?S = (Inl ?e, snd (loginFlow ?E ?S))" by (metis prod.collapse)
  have ms: "message ?e = Inr (JStr ''ETIMEDOUT'')" by simp
  have ns: "\<not> sublist ''Status code 3'' ''ETIMEDOUT''" by code_simp
  have len: "length (calls (snd (loginFlow ?E ?S))) < length (calls ?S) + 8" by code_simp
  have u: "field (acct ?init) ''warn'' = JUndefined" "field (acct ?init) ''banned'' = JUndefined"
    "to_string (field (acct ?init) ''username'') = ''ash''"
    by (simp_all add: start_def ash_def field_def)
  have st: "to_string (field ?a ''store'') = ''true''" "to_string (field ?a ''iap'') = ''true''"
    by code_simp+
  from unmarked_login_failure[OF n l ms ns, of "''output.csv''" "start demo_config [] []"] len u st
  have "map fst (calls (snd (saveToFile ?E [?a] ''output.csv'' (start demo_config [] [])))) =
     [(''fs.writeFile'',
       [Val (JStr ''output.csv''),
        Val (JStr (''username,banned,warn,store,iap'' @ [LF] @
                   ''ash,undefined,undefined,true,true'' @ [LF])),
        Val (JStr ''utf8'')])]"
    by (simp add: start_def)
  with fl show ?thesis by simp
qed

section \<open>No call of a stage writes the report\<close>


lemma not_writes_file: "fst c \<noteq> ''fs.writeFile'' \<Longrightarrow> \<not> writes_file f c"
  by (simp add: writes_file_def)









section \<open>Reading the accounts\<close>

lemma joinE:
  assumes "(case drawn of
              JArr xs \<Rightarrow> ret (JStr (array_join [] xs))
            | JUndefined \<Rightarrow> throw (type_error ''join'' JUndefined)
            | JNull \<Rightarrow> throw (type_error ''join'' JNull)
            | _ \<Rightarrow> throw (Error ''_.times(...).join is not a function'')) s = (Inr v, s')"
  obtains "s' = s"
proof -
  from assms have "s' = s"
    by (cases drawn) (simp_all add: ret_def throw_def eq_commute)
  then show thesis by (rule that)
qed

lemma splitE:
  assumes "(case content of
              JStr text \<Rightarrow> ret (lines_from [] text)
            | JUndefined \<Rightarrow> throw (type_error ''split'' JUndefined)
            | JNull \<Rightarrow> throw (type_error ''split'' JNull)
            | _ \<Rightarrow> throw (Error ''content.split is not a function'')) s = (Inr v, s')"
  obtains str where "content = JStr str" and "v = lines_from [] str" and "s' = s"
proof -
  from assms obtain str where "content = JStr str" and "v = lines_from [] str" and "s' = s"
    by (cases content) (simp_all add: ret_def throw_def eq_commute)
  then show thesis by (rule that)
qed

lemma unless_throwE:
  assumes "(if \<not> b then throw e else m) s = (Inr v, s')"
  obtains "b" and "m s = (Inr v, s')"
proof -
  from assms have "b" and "m s = (Inr v, s')"
    by (simp_all add: throw_def split: if_splits)
  then show thesis by (rule that)
qed


lemma new_client_part0_Inr:
  assumes "new_client_part0 ext s = (Inr c, s1)"
  shows "acct s1 = acct s \<and>
         (\<exists>evs opts. calls s1 = calls s @ evs \<and> length evs = 3 \<and>
            evs ! 2 = ((''new pogobuf.Client'', [Val (JObj opts)]), Inr c) \<and>
            map_of opts ''authType'' = Some (field (acct s) ''type'') \<and>
            map_of opts ''username'' = Some (field (acct s) ''username'') \<and>
            map_of opts ''password'' = Some (field (acct s) ''password''))"
  using assms unfolding new_client_part0_def logger_info_def
  apply (elim returnsE joinE)
  apply (intro exI conjI)
  apply (simp only:)
  apply (simp only: append_assoc append.simps)
  apply (simp (no_asm))
  apply (simp (no_asm))
  apply simp
  apply simp
  apply simp
  done

lemma loadAccount_part0_Inr:
  assumes "loadAccount_part0 ext f d s = (Inr accounts, s')"
  shows "\<exists>text evs. calls s' = calls s @ evs \<and> length evs = 2 \<and>
           evs ! 1 = ((''fs.readFile'', [Val (JStr f), Val (JStr ''utf8'')]), Inr (JStr text)) \<and>
           accounts = map (\<lambda>line.
              [(''type'', nth_js (split_js line d) 0),
               (''username'', nth_js (split_js line d) 1),
               (''password'', nth_js (split_js line d) 2)]) (lines_from [] text)"
  using assms unfolding loadAccount_part0_def
  apply (elim returnsE unless_throwE splitE)
  apply (intro exI conjI)
  apply (simp only: append_assoc append.simps)
  apply (simp (no_asm))
  apply (simp (no_asm))
  apply simp
  done





section \<open>The fields of a record\<close>

lemma store_tail_Inl:
  assumes "(then_do (set_field ''store'' (JBool True)) (\<lambda>_.
            then_do (lift r) (\<lambda>items.
            then_do (lift (g items)) (\<lambda>some.
            set_field ''iap'' (JBool some))))) s = (Inl e, s1)"
  shows "acct s1 = AList.update ''store'' (JBool True) (acct s)"
  using assms by (auto simp: then_do_def set_field_def lift_def split: sum.splits)

lemma perform_keeps: "perform ext c s = (r, s') \<Longrightarrow> acct s' = acct s"
  by (auto simp: perform_def split: prod.splits)

lemma store_try_Inl_acct:
  assumes "store_try ext s = (Inl e, s1)"
  shows "acct s1 = acct s \<or> acct s1 = AList.update ''store'' (JBool True) (acct s)"
proof -
  obtain r0 s0 where p: "perform_all ext store_request s = (r0, s0)"
    by (cases "perform_all ext store_request s")
  from perform_all_keeps[OF p] have k0: "acct s0 = acct s" by simp
  show ?thesis
  proof (cases r0)
    case (Inl e0)
    with p assms have "s1 = s0" by (simp add: store_try_def then_do_def)
    with k0 show ?thesis by simp
  next
    case (Inr response)
    with p assms have "(then_do (set_field ''store'' (JBool True)) (\<lambda>_.
            then_do (lift (get_prop response ''items'')) (\<lambda>items.
            then_do (lift (some_js is_iap (elements_of items))) (\<lambda>some.
            set_field ''iap'' (JBool some))))) s0 = (Inl e, s1)"
      by (simp add: store_try_def then_do_def)
    from store_tail_Inl[OF this] k0 show ?thesis by simp
  qed
qed

lemma store_try_part0_Inl_acct:
  assumes "store_try_part0 ext s = (Inl e, s1)"
  shows "acct s1 = acct s \<or> acct s1 = AList.update ''store'' (JBool True) (acct s)"
proof -
  obtain r0 s0 where p: "perform_all ext store_request s = (r0, s0)"
    by (cases "perform_all ext store_request s")
  from perform_all_keeps[OF p] have k0: "acct s0 = acct s" by simp
  show ?thesis
  proof (cases r0)
    case (Inl e0)
    with p assms have "s1 = s0" by (simp add: store_try_part0_def then_do_def)
    with k0 show ?thesis by simp
  next
    case response: (Inr response)
    obtain r2 s2 where d: "perform ext (''JSON.stringify'', [Val response, Val JNull, Val (JNum ''4'')]) s0 = (r2, s2)"
      by (cases "perform ext (''JSON.stringify'', [Val response, Val JNull, Val (JNum ''4'')]) s0")
    from perform_keeps[OF d] k0 have k2: "acct s2 = acct s" by simp
    show ?thesis
    proof (cases r2)
      case (Inl e2)
      with p d response assms have "s1 = s2" by (simp add: store_try_part0_def then_do_def)
      with k2 show ?thesis by simp
    next
      case dump: (Inr dump)
      obtain r3 s3 where w: "perform ext (''fs.writeFile'', [Val (JStr ''store.json''), Val dump, Val (JStr ''utf8'')]) s2 = (r3, s3)"
        by (cases "perform ext (''fs.writeFile'', [Val (JStr ''store.json''), Val dump, Val (JStr ''utf8'')]) s2")
      from perform_keeps[OF w] k2 have k3: "acct s3 = acct s" by simp
      show ?thesis
      proof (cases r3)
        case (Inl e3)
        with p d w response dump assms have "s1 = s3"
          by (simp add: store_try_part0_def then_do_def)
        with k3 show ?thesis by simp
      next
        case (Inr x)
        with p d w response dump assms have "(then_do (set_field ''store'' (JBool True)) (\<lambda>_.
            then_do (lift (get_prop response ''items'')) (\<lambda>items.
            then_do (lift (some_js is_iap (elements_of items))) (\<lambda>some.
            set_field ''iap'' (JBool some))))) s3 = (Inl e, s1)"
          by (simp add: store_try_part0_def then_do_def)
        from store_tail_Inl[OF this] k3 show ?thesis by simp
      qed
    qed
  qed
qed

lemma keys_update_cong:
  "map fst al = map fst bl \<Longrightarrow> map fst (AList.update k v al) = map fst (AList.update k w bl)"
  by (simp only: update_keys)

lemma keys_update_twice:
  "map fst (AList.update k v (AList.update k w al)) = map fst (AList.update k x al)"
  by (simp add: update_keys)

lemma store_flags_keys:
  assumes "acct s1 = acct s \<or> acct s1 = AList.update ''store'' t (acct s)"
  shows "map fst (AList.update ''iap'' i (AList.update ''store'' f (acct s1))) =
         map fst (AList.update ''iap'' x (AList.update ''store'' y (acct s)))"
proof (rule keys_update_cong)
  from assms show "map fst (AList.update ''store'' f (acct s1)) = map fst (AList.update ''store'' y (acct s))"
  proof
    assume "acct s1 = acct s"
    then show ?thesis by (simp only:) (rule keys_update_cong[OF refl])
  next
    assume "acct s1 = AList.update ''store'' t (acct s)"
    then show ?thesis by (simp only:) (rule keys_update_twice)
  qed
qed

lemma store_phase_keys:
  "map fst (acct (snd (store_phase ext s))) =
     map fst (AList.update ''iap'' x (AList.update ''store'' y (acct s)))"
proof (cases "store_try ext s")
  case (Pair r s1)
  show ?thesis
  proof (cases r)
    case (Inl e)
    with Pair have "acct (snd (store_phase ext s)) =
        AList.update ''iap'' (JBool False) (AList.update ''store'' (JBool False) (acct s1))"
      by (simp add: store_phase_of_try)
    with store_flags_keys[OF store_try_Inl_acct[OF Pair[unfolded Inl]]] show ?thesis by simp
  next
    case (Inr u)
    from store_try_Inr[OF Pair[unfolded Inr]] obtain b where
      "acct s1 = AList.update ''iap'' b (AList.update ''store'' (JBool True) (acct s))" by blast
    moreover from Pair Inr have "acct (snd (store_phase ext s)) = acct s1"
      by (simp add: store_phase_of_try)
    ultimately show ?thesis
      by (simp only:) (rule keys_update_cong[OF keys_update_cong[OF refl]])
  qed
qed

lemma store_phase_part0_keys:
  "map fst (acct (snd (store_phase_part0 ext s))) =
     map fst (AList.update ''iap'' x (AList.update ''store'' y (acct s)))"
proof (cases "store_try_part0 ext s")
  case (Pair r s1)
  show ?thesis
  proof (cases r)
    case (Inl e)
    with Pair have "acct (snd (store_phase_part0 ext s)) =
        AList.update ''iap'' (JBool False) (AList.update ''store'' (JBool False) (acct s1))"
      by (simp add: store_phase_part0_of_try)
    with store_flags_keys[OF store_try_part0_Inl_acct[OF Pair[unfolded Inl]]] show ?thesis by simp
  next
    case (Inr u)
    from store_try_part0_Inr[OF Pair[unfolded Inr]] obtain b where
      "acct s1 = AList.update ''iap'' b (AList.update ''store'' (JBool True) (acct s))" by blast
    moreover from Pair Inr have "acct (snd (store_phase_part0 ext s)) = acct s1"
      by (simp add: store_phase_part0_of_try)
    ultimately show ?thesis
      by (simp only:) (rule keys_update_cong[OF keys_update_cong[OF refl]])
  qed
qed

lemma checkAccount_part0_fields:
  assumes "checkAccount_part0 ext s = (Inr (), s')"
    and "map fst (acct s) = [''type'', ''username'', ''password'']"
  shows "map fst (acct s') =
           [''type'', ''username'', ''password'', ''warn'', ''banned'', ''store'', ''iap'']"
proof -
  from assms(1) obtain c s1 v s2 u s3 where
    n: "new_client_part0 ext s = (Inr c, s1)" and
    l: "loginFlow_part0 ext s1 = (Inr v, s2)" and
    p: "store_phase_part0 ext s2 = (Inr u, s3)" and
    k: "acct s' = acct s3"
    unfolding checkAccount_part0_def logger_info_def
    by (elim then_doE get_fieldE performE retE) auto
  from new_client_part0_Inr[OF n] have a1: "acct s1 = acct s" by simp
  from loginFlow_part0_Inr[OF l] obtain w b where
    a2: "acct s2 = AList.update ''banned'' b (AList.update ''warn'' w (acct s1))"
    unfolding login_result_def by blast
  from store_phase_part0_keys[of ext s2 JNull JNull] p
  have a3: "map fst (acct s3) = map fst (AList.update ''iap'' JNull (AList.update ''store'' JNull (acct s2)))"
    by simp
  from a1 a2 a3 k assms(2) show ?thesis
    by (simp add: update_keys)
qed

lemma keys_up_to:
  assumes "writes_only K m"
  shows "fst ` set (acct (snd (m s))) \<union> K = fst ` set (acct s) \<union> K"
proof -
  have "k \<in> fst ` set (acct (snd (m s))) \<longleftrightarrow> k \<in> fst ` set (acct s)" if "k \<notin> K" for k
    using assms that unfolding writes_only_def
    by (metis map_of_eq_None_iff)
  then show ?thesis by blast
qed

lemma checkAccount_store_iap:
  assumes "fst (checkAccount ext s) = Inr ()"
  shows "{''store'', ''iap''} \<subseteq> fst ` set (acct (snd (checkAccount ext s)))"
proof -
  from assms obtain s' where r: "checkAccount ext s = (Inr (), s')" by (metis prod.collapse)
  then obtain c s1 s2 s3 where
    p: "store_phase ext s2 = (Inr (), s3)" and
    g: "report_log ext s3 = (Inr (), s')"
    unfolding checkAccount_def by (elim then_doE) auto
  from store_phase_keys[of ext s2 JNull JNull] p
  have "set (map fst (acct s3)) = set (map fst (AList.update ''iap'' JNull (AList.update ''store'' JNull (acct s2))))"
    by simp
  then have k3: "{''store'', ''iap''} \<subseteq> fst ` set (acct s3)"
    by (simp add: dom_update)
  from keys_up_to[OF writes_only_report_log, of ext s3] g
  have "fst ` set (acct s') = fst ` set (acct s3)" by simp
  with k3 r show ?thesis by simp
qed

text \<open>
  C7, as amended. In the other file a record has exactly the three fields \<open>type\<close>,
  \<open>username\<close>, \<open>password\<close> when read, and exactly seven once \<open>checkAccount\<close> has returned:
  those and \<open>warn\<close>, \<open>banned\<close>, \<open>store\<close>, \<open>iap\<close>. In \<open>index.js\<close> \<open>checkAccount\<close> adds no
  field but these four to those the row had, and \<open>store\<close> and \<open>iap\<close> are among the fields
  when it returns.
\<close>

theorem account_field_counts:
  assumes "loadAccount_part0 ext filename delimiter s = (Inr accounts, s1)" and "a \<in> set accounts"
    and "checkAccount_part0 ext (t\<lparr>acct := a\<rparr>) = (Inr (), t')"
  shows "map fst a = [''type'', ''username'', ''password''] \<and>
         map fst (acct t') =
           [''type'', ''username'', ''password'', ''warn'', ''banned'', ''store'', ''iap''] \<and>
         fst ` set (acct (snd (checkAccount ext u))) \<union> {''warn'', ''banned'', ''store'', ''iap''} =
           fst ` set (acct u) \<union> {''warn'', ''banned'', ''store'', ''iap''} \<and>
         (fst (checkAccount ext u) = Inr () \<longrightarrow>
            {''store'', ''iap''} \<subseteq> fst ` set (acct (snd (checkAccount ext u))))"
proof -
  from loadAccount_part0_Inr[OF assms(1)] assms(2)
  have 1: "map fst a = [''type'', ''username'', ''password'']" by auto
  from checkAccount_part0_fields[OF assms(3)] 1
  have 2: "map fst (acct t') =
           [''type'', ''username'', ''password'', ''warn'', ''banned'', ''store'', ''iap'']"
    by simp
  from 1 2 keys_up_to[OF writes_only_checkAccount, of ext u] checkAccount_store_iap[of ext u]
  show ?thesis by blast
qed

text \<open>
  Against C7 as stated (never fewer than five fields): a record as the other file reads it
  has three.
\<close>

theorem loaded_record_has_three_fields:
  "fst (loadAccount_part0 (script_ext []) ''accounts.4.csv'' '',''
         (start default_config_part0 [] good_load_part0)) = Inr [ash, misty] \<and>
   length ash = 3 \<and> map fst ash = [''type'', ''username'', ''password''] \<and>
   length (acct (snd (checkAccount_part0 (script_ext [])
      (start demo_config ash (good_client @ good_login_part0 @ good_store_part0))))) = 7"
  by code_simp

theorem account_field_counts_witness:
  "map fst misty = [''type'', ''username'', ''password''] \<and>
   map fst (acct (snd (checkAccount_part0 (script_ext [])
      (start demo_config misty (good_client @ good_login_part0 @ good_store_part0))))) =
     [''type'', ''username'', ''password'', ''warn'', ''banned'', ''store'', ''iap''] \<and>
   fst (checkAccount (script_ext []) (start demo_config brock (good_client @ good_login @ good_store)))
     = Inr () \<and>
   {''store'', ''iap''} \<subseteq> fst ` set (acct (snd (checkAccount (script_ext [])
      (start demo_config brock (good_client @ good_login @ good_store)))))"
proof -
  let ?E = "script_ext [] :: (error + jsval) list externals"
  let ?a = "start default_config_part0 [] good_load_part0"
  let ?t = "start demo_config [] (good_client @ good_login_part0 @ good_store_part0)"
  let ?u = "start demo_config brock (good_client @ good_login @ good_store)"
  have "fst (loadAccount_part0 ?E ''accounts.4.csv'' '','' ?a) = Inr [ash, misty]" by code_simp
  then have h1: "loadAccount_part0 ?E ''accounts.4.csv'' '','' ?a =
      (Inr [ash, misty], snd (loadAccount_part0 ?E ''accounts.4.csv'' '','' ?a))"
    by (intro prod_eqI) simp_all
  have h2: "misty \<in> set [ash, misty]" by simp
  have "fst (checkAccount_part0 ?E (?t\<lparr>acct := misty\<rparr>)) = Inr ()" by code_simp
  then have h3: "checkAccount_part0 ?E (?t\<lparr>acct := misty\<rparr>) =
      (Inr (), snd (checkAccount_part0 ?E (?t\<lparr>acct := misty\<rparr>)))"
    by (intro prod_eqI) simp_all
  have e: "?t\<lparr>acct := misty\<rparr> = start demo_config misty (good_client @ good_login_part0 @ good_store_part0)"
    by (simp add: start_def)
  have r: "fst (checkAccount ?E ?u) = Inr ()" by code_simp
  from account_field_counts[OF h1 h2 h3, of ?u] r e show ?thesis by simp
qed

section \<open>The order of Main\<close>














































end
